theory Spec2Isabelle
  imports Complex_Main
begin

section \<open>Floating-point values as the program sees them\<close>

text \<open>
  Every number of \<^verbatim>\<open>virial.py\<close> is a NumPy \<^verbatim>\<open>float64\<close>. The model keeps the
  three special values that NumPy produces instead of raising (\<^verbatim>\<open>inf\<close>, \<^verbatim>\<open>-inf\<close>,
  \<^verbatim>\<open>nan\<close>) and idealises every finite value as a real number: rounding, overflow of a
  finite result, underflow and the sign of zero are outside the model. What the program
  computes is stated in these operations; whether a \<^verbatim>\<open>float64\<close> result is zero or
  infinite where the real one is not is decided in the binary64 arithmetic of the section on
  the hard-sphere term below, never in this idealisation.
\<close>

datatype fl = Fin real | PInf | NInf | NaN

fun fneg :: "fl \<Rightarrow> fl" where
  "fneg (Fin x) = Fin (- x)"
| "fneg PInf = NInf"
| "fneg NInf = PInf"
| "fneg NaN = NaN"

fun fadd :: "fl \<Rightarrow> fl \<Rightarrow> fl" where
  "fadd (Fin x) (Fin y) = Fin (x + y)"
| "fadd NaN _ = NaN"
| "fadd _ NaN = NaN"
| "fadd PInf NInf = NaN"
| "fadd NInf PInf = NaN"
| "fadd PInf _ = PInf"
| "fadd _ PInf = PInf"
| "fadd NInf _ = NInf"
| "fadd _ NInf = NInf"

definition fsub :: "fl \<Rightarrow> fl \<Rightarrow> fl" where
  "fsub a b = fadd a (fneg b)"

text \<open>The sign of a value: \<open>Some True\<close> positive, \<open>Some False\<close> negative, \<open>None\<close> zero or nan.\<close>

fun fsign :: "fl \<Rightarrow> bool option" where
  "fsign (Fin x) = (if 0 < x then Some True else if x < 0 then Some False else None)"
| "fsign PInf = Some True"
| "fsign NInf = Some False"
| "fsign NaN = None"

fun fmul :: "fl \<Rightarrow> fl \<Rightarrow> fl" where
  "fmul (Fin x) (Fin y) = Fin (x * y)"
| "fmul NaN _ = NaN"
| "fmul _ NaN = NaN"
| "fmul a b = (case (fsign a, fsign b) of
      (Some s, Some t) \<Rightarrow> if s = t then PInf else NInf
    | _ \<Rightarrow> NaN)"

text \<open>
  Division of \<^verbatim>\<open>float64\<close> values never raises: a zero divisor gives an infinity or nan
  (with a warning). Zero is taken as positive zero.
\<close>

fun fdiv :: "fl \<Rightarrow> fl \<Rightarrow> fl" where
  "fdiv NaN _ = NaN"
| "fdiv _ NaN = NaN"
| "fdiv (Fin x) (Fin y) =
     (if y \<noteq> 0 then Fin (x / y)
      else if 0 < x then PInf else if x < 0 then NInf else NaN)"
| "fdiv (Fin x) _ = Fin 0"
| "fdiv a (Fin y) =
     (if 0 \<le> y then a else fneg a)"
| "fdiv _ _ = NaN"

text \<open>
  A power with a small natural exponent, \<^verbatim>\<open>x**2\<close> and \<^verbatim>\<open>x**3\<close>: finite powers are
  exact here, without the underflow and overflow of \<^verbatim>\<open>float64\<close>.
\<close>

primrec fpow :: "fl \<Rightarrow> nat \<Rightarrow> fl" where
  "fpow x 0 = Fin 1"
| "fpow x (Suc n) = fmul x (fpow x n)"

fun np_exp1 :: "fl \<Rightarrow> fl" where
  "np_exp1 (Fin x) = Fin (exp x)"
| "np_exp1 PInf = PInf"
| "np_exp1 NInf = Fin 0"
| "np_exp1 NaN = NaN"

text \<open>
  \<^verbatim>\<open>np.log\<close> raises nothing: the logarithm of zero is \<^verbatim>\<open>-inf\<close>, of a negative number
  \<^verbatim>\<open>nan\<close>, each with a warning only.
\<close>

fun np_log1 :: "fl \<Rightarrow> fl" where
  "np_log1 (Fin x) = (if 0 < x then Fin (ln x) else if x = 0 then NInf else NaN)"
| "np_log1 PInf = PInf"
| "np_log1 NInf = NaN"
| "np_log1 NaN = NaN"

text \<open>Comparisons: every comparison with nan is false.\<close>

fun flt :: "fl \<Rightarrow> fl \<Rightarrow> bool" where
  "flt NaN _ = False"
| "flt _ NaN = False"
| "flt (Fin x) (Fin y) = (x < y)"
| "flt _ NInf = False"
| "flt PInf _ = False"
| "flt _ _ = True"

fun fle :: "fl \<Rightarrow> fl \<Rightarrow> bool" where
  "fle NaN _ = False"
| "fle _ NaN = False"
| "fle (Fin x) (Fin y) = (x \<le> y)"
| "fle NInf _ = True"
| "fle _ PInf = True"
| "fle _ _ = False"

definition fgt :: "fl \<Rightarrow> fl \<Rightarrow> bool" where
  "fgt a b = flt b a"

definition fge :: "fl \<Rightarrow> fl \<Rightarrow> bool" where
  "fge a b = fle b a"

section \<open>Errors\<close>

text \<open>
  The exceptions that end a run: \<^verbatim>\<open>exit(message)\<close> and the built-in exceptions raised by
  Python, NumPy and SciPy. The program defines no exception class of its own.
\<close>

datatype error = SystemExit string | IndexError | ValueError | TypeError

section \<open>One-dimensional arrays\<close>

text \<open>
  A one-dimensional \<^verbatim>\<open>ndarray\<close> is a list. An operation on an array and a scalar maps
  over the array; an operation on two arrays broadcasts: equal lengths go elementwise, an array
  of length one is stretched, anything else is a \<^verbatim>\<open>ValueError\<close>.
\<close>

definition np_binop :: "(fl \<Rightarrow> fl \<Rightarrow> fl) \<Rightarrow> fl list \<Rightarrow> fl list \<Rightarrow> error + fl list" where
  "np_binop f xs ys =
     (if length xs = length ys then Inr (map2 f xs ys)
      else if length xs = 1 then Inr (map (f (hd xs)) ys)
      else if length ys = 1 then Inr (map (\<lambda>x. f x (hd ys)) xs)
      else Inl ValueError)"

text \<open>Indexing with a boolean mask \<^verbatim>\<open>xs[m]\<close>: the mask must have the array's length.\<close>

definition bool_index :: "'a list \<Rightarrow> bool list \<Rightarrow> error + 'a list" where
  "bool_index xs m =
     (if length m \<noteq> length xs then Inl IndexError
      else Inr (map fst (filter snd (zip xs m))))"

text \<open>
  Python's built-in \<^verbatim>\<open>min\<close> and \<^verbatim>\<open>max\<close> over the elements of an array: the first
  element is the candidate, a later element replaces it when it compares smaller (greater); an
  empty array is a \<^verbatim>\<open>ValueError\<close>.
\<close>

fun py_min :: "fl list \<Rightarrow> error + fl" where
  "py_min [] = Inl ValueError"
| "py_min (x # xs) = Inr (fold (\<lambda>y m. if flt y m then y else m) xs x)"

fun py_max :: "fl list \<Rightarrow> error + fl" where
  "py_max [] = Inl ValueError"
| "py_max (x # xs) = Inr (fold (\<lambda>y m. if fgt y m then y else m) xs x)"

section \<open>The radial distribution function\<close>

record rdf =
  rdf_r :: "fl list"
  rdf_g :: "fl list"
  rdf_w :: "fl list"

text \<open>
  \<^verbatim>\<open>np.loadtxt\<close> parses the rows of numbers of a text file; the file system is a map from
  a path to the rows of the file there. Rows of different lengths are a \<^verbatim>\<open>ValueError\<close>.
  The result is squeezed: axes of length one are dropped, so that a file of one row or of one
  column gives a one-dimensional array, and an empty file an array of shape \<open>(0,)\<close>.
\<close>

definition loadtxt_shape :: "fl list list \<Rightarrow> error + nat list" where
  "loadtxt_shape rows =
     (case rows of
        [] \<Rightarrow> Inr [0]
      | row # rest \<Rightarrow>
          if \<exists>x \<in> set rest. length x \<noteq> length row then Inl ValueError
          else Inr (filter (\<lambda>n. n \<noteq> 1) [length rows, length row]))"

text \<open>
  \<^verbatim>\<open>RadialDistributionFunction.__init__\<close>: \<^verbatim>\<open>d.shape[1]\<close> is an \<^verbatim>\<open>IndexError\<close>
  on an array of fewer than two dimensions.
\<close>

definition rdf_init :: "(string \<rightharpoonup> fl list list) \<Rightarrow> string \<Rightarrow> error + rdf" where
  "rdf_init fs filename =
     (case fs filename of
        None \<Rightarrow> Inl (SystemExit (''Error loading g(r) from '' @ filename
                   @ '' -- file does not exist or wrong format.''))
      | Some rows \<Rightarrow>
          (case loadtxt_shape rows of
             Inl e \<Rightarrow> Inl e
           | Inr shape \<Rightarrow>
               if length shape < 2 then Inl IndexError
               else if shape ! 1 = 2 then
                 Inr \<lparr> rdf_r = map (\<lambda>row. row ! 0) rows,
                       rdf_g = map (\<lambda>row. row ! 1) rows,
                       rdf_w = map (\<lambda>x. fneg (np_log1 x)) (map (\<lambda>row. row ! 1) rows) \<rparr>
               else Inl (SystemExit (''Error loading g(r) from '' @ filename
                   @ '' -- file does not exist or wrong format.''))))"

text \<open>\<^verbatim>\<open>RadialDistributionFunction.slice\<close>.\<close>

definition slice :: "rdf \<Rightarrow> fl \<Rightarrow> fl \<Rightarrow> error + (fl list \<times> fl list)" where
  "slice s rmin rmax =
     (let m = map (\<lambda>x. fge x rmin \<and> fle x rmax) (rdf_r s) in
      case bool_index (rdf_r s) m of
        Inl e \<Rightarrow> Inl e
      | Inr rs \<Rightarrow> (case bool_index (rdf_g s) m of Inl e \<Rightarrow> Inl e | Inr gs \<Rightarrow> Inr (rs, gs)))"

section \<open>The virial coefficient\<close>

text \<open>
  \<^verbatim>\<open>np.trapz(y, x)\<close>: the differences of \<open>x\<close> times the sums of neighbouring \<open>y\<close>,
  halved and added up.
\<close>

definition np_diff :: "fl list \<Rightarrow> fl list" where
  "np_diff xs = map2 fsub (tl xs) (butlast xs)"

definition np_sum :: "fl list \<Rightarrow> fl" where
  "np_sum xs = foldl fadd (Fin 0) xs"

definition np_trapz :: "fl list \<Rightarrow> fl list \<Rightarrow> error + fl" where
  "np_trapz y x =
     (case np_binop fmul (np_diff x) (map2 fadd (tl y) (butlast y)) of
        Inl e \<Rightarrow> Inl e
      | Inr p \<Rightarrow> Inr (np_sum (map (\<lambda>v. fdiv v (Fin 2)) p)))"

text \<open>
  The result dictionary \<^verbatim>\<open>b2\<close> holds numbers and two-element lists. Avogadro's number
  \<^verbatim>\<open>N_A\<close> comes from \<^verbatim>\<open>scipy.constants\<close>; it is a parameter \<open>NA\<close> of the model.
\<close>

datatype b2val = Num fl | Rng fl fl

definition VirialCoefficient ::
  "real \<Rightarrow> fl list \<Rightarrow> fl list \<Rightarrow> fl list \<Rightarrow> error + (string \<rightharpoonup> b2val)" where
  "VirialCoefficient NA r w mw =
     (case py_min r of
        Inl e \<Rightarrow> Inl e
      | Inr rmin \<Rightarrow>
     (let hs = fmul (Fin (2 * pi / 3)) (fpow rmin 3) in
      case np_binop fmul
             (map (\<lambda>x. fmul (Fin (- 2 * pi)) (fsub (np_exp1 (fneg x)) (Fin 1))) w)
             (map (\<lambda>x. fpow x 2) r) of
        Inl e \<Rightarrow> Inl e
      | Inr y \<Rightarrow>
     (case np_trapz y r of
        Inl e \<Rightarrow> Inl e
      | Inr t \<Rightarrow>
     (let tot = fadd hs t;
          reduced = fdiv tot hs in
      case py_max r of
        Inl e \<Rightarrow> Inl e
      | Inr rmax \<Rightarrow>
     (let b2 = [''hs'' \<mapsto> Num hs, ''tot'' \<mapsto> Num tot, ''reduced'' \<mapsto> Num reduced,
                ''hsrange'' \<mapsto> Rng (Fin 0) rmin, ''range'' \<mapsto> Rng (Fin 0) rmax] in
      case mw of
        [] \<Rightarrow> Inl IndexError
      | mw0 # rest \<Rightarrow>
          if fgt mw0 (Fin 0) then
            (case rest of
               [] \<Rightarrow> Inl IndexError
             | mw1 # _ \<Rightarrow>
                 if fgt mw1 (Fin 0) then
                   Inr (b2(''mlmol/g2'' \<mapsto>
                     Num (fdiv (fdiv (fmul (fmul tot (Fin NA)) (Fin (1 / 10 ^ 24))) mw0) mw1)))
                 else Inr b2)
          else Inr b2)))))"

section \<open>The hard-sphere term in binary64 arithmetic\<close>

text \<open>
  Line 39, \<^verbatim>\<open>b2['hs'] = 2*pi/3*min(r)**3\<close>, once more, now with the rounding of
  IEEE 754 binary64: 53 significant bits, exponents from \<open>-1022\<close> to \<open>1023\<close>,
  subnormal numbers with the spacing \<open>2\<^sup>-\<^sup>1\<^sup>0\<^sup>7\<^sup>4\<close>, rounding to the nearest
  with ties to the even significand; a result that rounds to \<open>2\<^sup>1\<^sup>0\<^sup>2\<^sup>4\<close> or beyond
  is an infinity, and one of magnitude below \<open>2\<^sup>-\<^sup>1\<^sup>0\<^sup>7\<^sup>5\<close> is zero. The sign of zero
  is not kept.
\<close>

definition round_even :: "real \<Rightarrow> int" where
  "round_even y =
     (let f = \<lfloor>y\<rfloor>; d = y - of_int f
      in if d < 1 / 2 then f else if 1 / 2 < d then f + 1 else if even f then f else f + 1)"

definition round64 :: "real \<Rightarrow> fl" where
  "round64 x =
     (if x = 0 then Fin 0
      else
       (let e = max \<lfloor>log 2 \<bar>x\<bar>\<rfloor> (- 1022);
            y = 2 powi (e - 52) * of_int (round_even (x / 2 powi (e - 52)))
        in if 2 ^ 1024 \<le> \<bar>y\<bar> then (if 0 < x then PInf else NInf) else Fin y))"

text \<open>
  The product and the quotient of two \<^verbatim>\<open>float64\<close> values are the real ones, rounded; the
  special values behave as before. The power is the C library's \<^verbatim>\<open>pow\<close>, taken as the
  real power, rounded.
\<close>

definition f64mul :: "fl \<Rightarrow> fl \<Rightarrow> fl" where
  "f64mul a b = (case fmul a b of Fin x \<Rightarrow> round64 x | v \<Rightarrow> v)"

definition f64div :: "fl \<Rightarrow> fl \<Rightarrow> fl" where
  "f64div a b = (case fdiv a b of Fin x \<Rightarrow> round64 x | v \<Rightarrow> v)"

definition f64pow :: "fl \<Rightarrow> nat \<Rightarrow> fl" where
  "f64pow a n = (case fpow a n of Fin x \<Rightarrow> round64 x | v \<Rightarrow> v)"

text \<open>\<^verbatim>\<open>math.pi\<close> is the \<^verbatim>\<open>float64\<close> value \<open>884279719003555 / 2\<^sup>4\<^sup>8\<close>.\<close>

definition pi_float64 :: real where
  "pi_float64 = 884279719003555 / 2 ^ 48"

text \<open>
  The power binds tighter than the products, which are taken from the left:
  \<^verbatim>\<open>((2*pi)/3) * (min(r)**3)\<close>.
\<close>

definition VirialCoefficient_hs_float64 :: "fl list \<Rightarrow> error + fl" where
  "VirialCoefficient_hs_float64 r =
     (case py_min r of
        Inl e \<Rightarrow> Inl e
      | Inr rmin \<Rightarrow>
          Inr (f64mul (f64div (f64mul (Fin 2) (Fin pi_float64)) (Fin 3)) (f64pow rmin 3)))"

section \<open>The main program: fitting and merging\<close>

text \<open>
  The model potential \<^verbatim>\<open>pot(r, *a)\<close> is compiled from an expression string; it is a
  parameter of the model, a function of the array \<open>r\<close> and the parameters \<open>a\<close> that
  returns an array or raises. The built-in potential \<^verbatim>\<open>zero\<close> is
  \<^verbatim>\<open>r*0 + a[0]\<close>.
\<close>

type_synonym potential = "fl list \<Rightarrow> fl list \<Rightarrow> error + fl list"

definition pot_zero :: potential where
  "pot_zero rs a =
     (case a of [] \<Rightarrow> Inl IndexError
      | a0 # _ \<Rightarrow> Inr (map (\<lambda>x. fadd (fmul x (Fin 0)) a0) rs))"

text \<open>
  \<^verbatim>\<open>curve_fit\<close> belongs to SciPy, not to the program: it is the parameter \<open>cf\<close> of the
  fit step, taking the potential, the two data arrays and the initial guess, and returning the
  fitted parameters or raising. The fit step is lines 115 and 116 of the main program.
\<close>

type_synonym fitter = "potential \<Rightarrow> fl list \<Rightarrow> fl list \<Rightarrow> fl list \<Rightarrow> error + fl list"

definition fit_step :: "fitter \<Rightarrow> potential \<Rightarrow> rdf \<Rightarrow> fl \<times> fl \<Rightarrow> fl list \<Rightarrow> error + fl list" where
  "fit_step cf pot s rng guess =
     (case slice s (fst rng) (snd rng) of
        Inl e \<Rightarrow> Inl e
      | Inr (rs, gs) \<Rightarrow> cf pot rs (map (\<lambda>x. fneg (np_log1 x)) gs) guess)"

text \<open>
  \<^verbatim>\<open>np.arange(start, stop, step)\<close> belongs to NumPy: it is the parameter \<open>arange\<close>
  of the merge, taking the three numbers and returning the grid or raising. How many points
  it returns and what they are is decided by NumPy in \<^verbatim>\<open>float64\<close> arithmetic (the
  rounded quotient of \<open>stop - start\<close> and \<open>step\<close> gives the length), which the real
  numbers do not reproduce; the merge is stated for every such function.
\<close>

type_synonym arange_fn = "fl \<Rightarrow> fl \<Rightarrow> fl \<Rightarrow> error + fl list"

text \<open>
  Lines 126 to 135 of the main program: the merge of the measured data and the model tail.
  The variables it leaves behind are the fields of the result.
\<close>

record merged =
  rdf_after :: rdf
  a_after :: "fl list"
  out_r :: "fl list"
  out_w :: "fl list"

definition merge_tail ::
  "arange_fn \<Rightarrow> bool \<Rightarrow> potential \<Rightarrow> rdf \<Rightarrow> fl \<times> fl \<Rightarrow> fl list \<Rightarrow> error + merged" where
  "merge_tail arange shiftonly pot s rng a =
     (if shiftonly then
        (if a = [] then Inl IndexError
         else Inr \<lparr> rdf_after = s, a_after = a,
                    out_r = rdf_r s, out_w = map (\<lambda>x. fsub x (last a)) (rdf_w s) \<rparr>)
      else if length (rdf_r s) < 2 then Inl IndexError
      else
       (let dr = fsub (rdf_r s ! 1) (rdf_r s ! 0) in
        if a = [] then Inl IndexError
        else
         (let s' = s \<lparr> rdf_w := map (\<lambda>x. fsub x (last a)) (rdf_w s) \<rparr>;
              a' = a [length a - 1 := Fin 0];
              shead = map (\<lambda>x. fle x (fst rng)) (rdf_r s') in
          case arange (fst rng) (fmul (Fin 4) (snd rng)) dr of
            Inl e \<Rightarrow> Inl e
          | Inr rtail \<Rightarrow>
         (case bool_index (rdf_r s') shead of
            Inl e \<Rightarrow> Inl e
          | Inr rhead \<Rightarrow>
         (case bool_index (rdf_w s') shead of
            Inl e \<Rightarrow> Inl e
          | Inr whead \<Rightarrow>
         (case pot rtail a' of
            Inl e \<Rightarrow> Inl e
          | Inr wtail \<Rightarrow>
              Inr \<lparr> rdf_after = s', a_after = a',
                    out_r = rhead @ rtail, out_w = whead @ wtail \<rparr>))))))"

section \<open>The formulas of the specification\<close>

text \<open>
  The specification gives the total virial coefficient as the hard-sphere term plus the
  trapezoidal-rule integral of \<open>-2\<pi> (exp (-w(r)) - 1) r\<^sup>2\<close> over the curve. These two
  definitions follow its words, over the real numbers; the program's
  \<^verbatim>\<open>VirialCoefficient\<close> is compared with them.
\<close>

definition B2_integrand :: "real \<Rightarrow> real \<Rightarrow> real" where
  "B2_integrand x v = - 2 * pi * (exp (- v) - 1) * x ^ 2"

definition trapezoid_rule :: "real list \<Rightarrow> real list \<Rightarrow> real" where
  "trapezoid_rule xs ys =
     (\<Sum>i < length xs - 1. (xs ! (i + 1) - xs ! i) * (ys ! i + ys ! (i + 1)) / 2)"

section \<open>Example data\<close>

text \<open>
  A measured series of four points with \<open>w = - ln g\<close>. The least-squares fit of the potential
  \<^verbatim>\<open>zero\<close> over the range \<open>[2, 3]\<close> is the mean of \<open>2\<close> and \<open>0\<close>, the shift \<open>1\<close>; over the
  range \<open>[1, 2]\<close> it is the mean of \<open>5\<close> and \<open>2\<close>.
\<close>

definition rdf_example :: rdf where
  "rdf_example =
     \<lparr> rdf_r = [Fin 1, Fin 2, Fin 3, Fin 4],
       rdf_g = [Fin (exp (- 5)), Fin (exp (- 2)), Fin 1, Fin 1],
       rdf_w = [Fin 5, Fin 2, Fin 0, Fin 0] \<rparr>"

text \<open>
  The two calls of \<^verbatim>\<open>np.arange\<close> that the examples below make, with NumPy's results:
  \<^verbatim>\<open>np.arange(2, 12, 1)\<close> for the fit range \<open>[2, 3]\<close> and \<^verbatim>\<open>np.arange(1, 8, 1)\<close>
  for the fit range \<open>[1, 2]\<close>, the step being \<open>2 - 1\<close>. Both end one step before
  \<open>stop\<close>. No other call is made in the examples.
\<close>

definition arange_example :: arange_fn where
  "arange_example start stop step =
     (if start = Fin 2 \<and> stop = Fin 12 \<and> step = Fin 1
      then Inr [Fin 2, Fin 3, Fin 4, Fin 5, Fin 6, Fin 7, Fin 8, Fin 9, Fin 10, Fin 11]
      else if start = Fin 1 \<and> stop = Fin 8 \<and> step = Fin 1
      then Inr [Fin 1, Fin 2, Fin 3, Fin 4, Fin 5, Fin 6, Fin 7]
      else Inl ValueError)"

section \<open>Order of the floating-point values\<close>

lemma flt_NaN_right [simp]: "flt x NaN = False"
  by (cases x) simp_all

lemma fle_NaN_right [simp]: "fle x NaN = False"
  by (cases x) simp_all

lemma fle_refl: "x \<noteq> NaN \<Longrightarrow> fle x x"
  by (cases x) simp_all

lemma fle_trans: "fle x y \<Longrightarrow> fle y z \<Longrightarrow> fle x z"
  by (cases x; cases y; cases z) simp_all

lemma flt_fle_trans: "fle x y \<Longrightarrow> flt y z \<Longrightarrow> flt x z"
  by (cases x; cases y; cases z) simp_all

lemma fle_flt_trans: "flt x y \<Longrightarrow> fle y z \<Longrightarrow> flt x z"
  by (cases x; cases y; cases z) simp_all

lemma flt_not_fle: "flt x y \<Longrightarrow> \<not> fle y x"
  by (cases x; cases y) simp_all

lemma not_flt_fle: "\<not> flt x y \<Longrightarrow> x \<noteq> NaN \<Longrightarrow> y \<noteq> NaN \<Longrightarrow> fle y x"
  by (cases x; cases y) simp_all

lemma flt_imp_fle: "flt x y \<Longrightarrow> fle x y"
  by (cases x; cases y) simp_all

lemma fold_max_NaN: "fold (\<lambda>y m. if fgt y m then y else m) xs NaN = NaN"
  by (induction xs) (simp_all add: fgt_def)

lemma fold_max_bound:
  "a \<noteq> NaN \<Longrightarrow> fold (\<lambda>y m. if fgt y m then y else m) xs a = m \<Longrightarrow>
   m \<noteq> NaN \<and> fle a m \<and> (\<forall>x \<in> set xs. x = NaN \<or> fle x m)"
proof (induction xs arbitrary: a)
  case Nil
  then show ?case by (simp add: fle_refl)
next
  case (Cons y ys)
  show ?case
  proof (cases "fgt y a")
    case True
    then have yn: "y \<noteq> NaN" by (cases y) (simp_all add: fgt_def)
    from True Cons.prems have "fold (\<lambda>y m. if fgt y m then y else m) ys y = m" by simp
    from Cons.IH[OF yn this] True show ?thesis
      by (auto simp: fgt_def intro: fle_trans flt_imp_fle)
  next
    case False
    with Cons.prems have "fold (\<lambda>y m. if fgt y m then y else m) ys a = m" by simp
    from Cons.IH[OF Cons.prems(1) this] False Cons.prems(1) show ?thesis
      by (auto simp: fgt_def intro: fle_trans not_flt_fle)
  qed
qed

lemma py_max_bound:
  assumes "py_max xs = Inr m" "m \<noteq> NaN" "x \<in> set xs"
  shows "x = NaN \<or> fle x m"
proof (cases xs)
  case Nil
  with assms show ?thesis by simp
next
  case (Cons a as)
  with assms have f: "fold (\<lambda>y m. if fgt y m then y else m) as a = m" by simp
  with assms(2) have "a \<noteq> NaN" using fold_max_NaN by metis
  from fold_max_bound[OF this f] assms(3) Cons show ?thesis by auto
qed

lemma fold_min_NaN: "fold (\<lambda>y m. if flt y m then y else m) xs NaN = NaN"
  by (induction xs) simp_all

lemma fold_min_bound:
  "a \<noteq> NaN \<Longrightarrow> fold (\<lambda>y m. if flt y m then y else m) xs a = m \<Longrightarrow>
   m \<noteq> NaN \<and> fle m a \<and> (\<forall>x \<in> set xs. x = NaN \<or> fle m x)"
proof (induction xs arbitrary: a)
  case Nil
  then show ?case by (simp add: fle_refl)
next
  case (Cons y ys)
  show ?case
  proof (cases "flt y a")
    case True
    then have yn: "y \<noteq> NaN" by (cases y) simp_all
    from True Cons.prems have "fold (\<lambda>y m. if flt y m then y else m) ys y = m" by simp
    from Cons.IH[OF yn this] True show ?thesis
      by (auto intro: fle_trans flt_imp_fle)
  next
    case False
    with Cons.prems have "fold (\<lambda>y m. if flt y m then y else m) ys a = m" by simp
    from Cons.IH[OF Cons.prems(1) this] False Cons.prems(1) show ?thesis
      by (auto intro: fle_trans not_flt_fle)
  qed
qed

lemma py_min_bound:
  assumes "py_min xs = Inr m" "m \<noteq> NaN" "x \<in> set xs"
  shows "x = NaN \<or> fle m x"
proof (cases xs)
  case Nil
  with assms show ?thesis by simp
next
  case (Cons a as)
  with assms have f: "fold (\<lambda>y m. if flt y m then y else m) as a = m" by simp
  with assms(2) have "a \<noteq> NaN" using fold_min_NaN by metis
  from fold_min_bound[OF this f] assms(3) Cons show ?thesis by auto
qed

lemma mask_self: "map fst (filter snd (zip xs (map P xs))) = filter P xs"
  by (induction xs) simp_all

lemma mask_other:
  "length ys = length xs \<Longrightarrow>
   map fst (filter snd (zip ys (map P xs))) = map snd (filter (\<lambda>p. P (fst p)) (zip xs ys))"
  by (induction ys xs rule: list_induct2) simp_all

lemma filter_zip_fst:
  "length ys = length xs \<Longrightarrow> map fst (filter (\<lambda>p. P (fst p)) (zip xs ys)) = filter P xs"
  by (induction ys xs rule: list_induct2) simp_all

lemma mask_map:
  "length ys = length xs \<Longrightarrow>
   map fst (filter snd (zip (map f ys) (map P xs)))
     = map (\<lambda>p. f (snd p)) (filter (\<lambda>p. P (fst p)) (zip xs ys))"
  by (induction ys xs rule: list_induct2) simp_all


section \<open>Slicing\<close>

lemma slice_eq:
  assumes len: "length (rdf_g s) = length (rdf_r s)"
  shows "slice s rmin rmax =
      Inr (map fst (filter (\<lambda>p. fle rmin (fst p) \<and> fle (fst p) rmax) (zip (rdf_r s) (rdf_g s))),
           map snd (filter (\<lambda>p. fle rmin (fst p) \<and> fle (fst p) rmax) (zip (rdf_r s) (rdf_g s))))"
proof -
  let ?P = "\<lambda>x. fle rmin x \<and> fle x rmax"
  have a: "bool_index (rdf_r s) (map (\<lambda>x. fge x rmin \<and> fle x rmax) (rdf_r s))
             = Inr (map fst (filter (\<lambda>p. ?P (fst p)) (zip (rdf_r s) (rdf_g s))))"
    using filter_zip_fst[OF len, of ?P] by (simp add: bool_index_def fge_def mask_self)
  have b: "bool_index (rdf_g s) (map (\<lambda>x. fge x rmin \<and> fle x rmax) (rdf_r s))
             = Inr (map snd (filter (\<lambda>p. ?P (fst p)) (zip (rdf_r s) (rdf_g s))))"
    using mask_other[OF len, of ?P] len by (simp add: bool_index_def fge_def)
  show ?thesis unfolding slice_def Let_def a b by simp
qed

text \<open>
  Claim C7. For every series whose columns have one length and all bounds \<open>rmin\<close>, \<open>rmax\<close>,
  \<open>slice\<close> returns exactly the points whose \<open>r\<close> satisfies \<open>rmin \<le> r \<le> rmax\<close>, both ends
  included, in their original order, as the pair of their \<open>r\<close> and their \<open>g\<close> values; and the
  result is empty when \<open>rmin\<close> is greater than the largest \<open>r\<close> or \<open>rmax\<close> is less than the
  smallest \<open>r\<close>.
\<close>

theorem slice_selects_range:
  assumes len: "length (rdf_g s) = length (rdf_r s)"
  shows "slice s rmin rmax =
           Inr (map fst (filter (\<lambda>p. fle rmin (fst p) \<and> fle (fst p) rmax) (zip (rdf_r s) (rdf_g s))),
                map snd (filter (\<lambda>p. fle rmin (fst p) \<and> fle (fst p) rmax) (zip (rdf_r s) (rdf_g s))))
       \<and> (\<forall>m. (py_max (rdf_r s) = Inr m \<and> flt m rmin) \<or> (py_min (rdf_r s) = Inr m \<and> flt rmax m)
              \<longrightarrow> slice s rmin rmax = Inr ([], []))"
proof -
  let ?P = "\<lambda>x. fle rmin x \<and> fle x rmax"
  have eq: "slice s rmin rmax =
      Inr (map fst (filter (\<lambda>p. ?P (fst p)) (zip (rdf_r s) (rdf_g s))),
           map snd (filter (\<lambda>p. ?P (fst p)) (zip (rdf_r s) (rdf_g s))))"
    using len by (rule slice_eq)
  have empty: "slice s rmin rmax = Inr ([], [])"
    if h: "(py_max (rdf_r s) = Inr m \<and> flt m rmin) \<or> (py_min (rdf_r s) = Inr m \<and> flt rmax m)" for m
  proof -
    have none: "\<not> ?P x" if x: "x \<in> set (rdf_r s)" for x
    proof
      assume P: "?P x"
      then have xn: "x \<noteq> NaN" by (cases x) simp_all
      from h show False
      proof
        assume a: "py_max (rdf_r s) = Inr m \<and> flt m rmin"
        then have "m \<noteq> NaN" by (cases m) simp_all
        with py_max_bound[of "rdf_r s" m x] a x xn have "fle x m" by simp
        with a have "flt x rmin" by (blast intro: flt_fle_trans)
        with P show False by (simp add: flt_not_fle)
      next
        assume a: "py_min (rdf_r s) = Inr m \<and> flt rmax m"
        then have "m \<noteq> NaN" by (cases m; cases rmax) simp_all
        with py_min_bound[of "rdf_r s" m x] a x xn have "fle m x" by simp
        with a have "flt rmax x" by (blast intro: fle_flt_trans)
        with P show False by (simp add: flt_not_fle)
      qed
    qed
    have "filter (\<lambda>p. ?P (fst p)) (zip (rdf_r s) (rdf_g s)) = []"
      using none by (auto simp: filter_empty_conv dest: set_zip_leftD)
    with eq show ?thesis by simp
  qed
  from eq empty show ?thesis by blast
qed


theorem slice_selects_range_witness:
  "length (rdf_g rdf_example) = length (rdf_r rdf_example)
   \<and> slice rdf_example (Fin 2) (Fin 3) = Inr ([Fin 2, Fin 3], [Fin (exp (- 2)), Fin 1])
   \<and> py_max (rdf_r rdf_example) = Inr (Fin 4) \<and> flt (Fin 4) (Fin 5)
   \<and> slice rdf_example (Fin 5) (Fin 6) = Inr ([], [])"
  using slice_selects_range [of rdf_example "Fin 2" "Fin 3"]
        slice_selects_range [of rdf_example "Fin 5" "Fin 6"]
  by (simp add: rdf_example_def fgt_def)

section \<open>Merging the data and the model tail\<close>

text \<open>
  Claim C6. In shift-only mode, for every measured series and every fitted parameter vector
  (which has a last element), the output curve has exactly the original \<open>r\<close> grid, and its
  \<open>w\<close> values are as many as the input \<open>w\<close> values and equal them minus the one constant
  \<^verbatim>\<open>a[-1]\<close> at every point.
\<close>

theorem shiftonly_subtracts_constant:
  assumes "a \<noteq> []"
  shows "\<exists>m. merge_tail arange True pot s rng a = Inr m
           \<and> out_r m = rdf_r s
           \<and> length (out_w m) = length (rdf_w s)
           \<and> (\<forall>i < length (rdf_w s). out_w m ! i = fsub (rdf_w s ! i) (last a))"
  using assms by (simp add: merge_tail_def)


theorem shiftonly_subtracts_constant_witness:
  "[Fin 1] \<noteq> []
   \<and> merge_tail arange_example True pot_zero rdf_example (Fin 2, Fin 3) [Fin 1]
       = Inr \<lparr> rdf_after = rdf_example, a_after = [Fin 1],
               out_r = [Fin 1, Fin 2, Fin 3, Fin 4],
               out_w = [Fin 4, Fin 1, Fin (- 1), Fin (- 1)] \<rparr>"
  using shiftonly_subtracts_constant
    [where a = "[Fin 1]" and arange = arange_example and pot = pot_zero and s = rdf_example
       and rng = "(Fin 2, Fin 3)"]
  by (simp add: merge_tail_def rdf_example_def fsub_def)

text \<open>What a run of the full merge that reaches its end has computed.\<close>

lemma merge_tail_full:
  assumes "merge_tail arange False pot s rng a = Inr m"
  shows "\<exists>rtail wtail.
           2 \<le> length (rdf_r s) \<and> a \<noteq> [] \<and> length (rdf_w s) = length (rdf_r s)
         \<and> arange (fst rng) (fmul (Fin 4) (snd rng)) (fsub (rdf_r s ! 1) (rdf_r s ! 0)) = Inr rtail
         \<and> pot rtail (a [length a - 1 := Fin 0]) = Inr wtail
         \<and> out_r m = filter (\<lambda>x. fle x (fst rng)) (rdf_r s) @ rtail
         \<and> out_w m = map (\<lambda>p. fsub (snd p) (last a))
                        (filter (\<lambda>p. fle (fst p) (fst rng)) (zip (rdf_r s) (rdf_w s))) @ wtail"
proof -
  from assms have l2: "2 \<le> length (rdf_r s)" and an: "a \<noteq> []"
    by (auto simp: merge_tail_def split: if_splits)
  from assms l2 an obtain rtail where
    ar: "arange (fst rng) (fmul (Fin 4) (snd rng)) (fsub (rdf_r s ! 1) (rdf_r s ! 0)) = Inr rtail"
    by (auto simp: merge_tail_def Let_def split: sum.splits)
  from assms l2 an ar have len: "length (rdf_w s) = length (rdf_r s)"
    by (auto simp: merge_tail_def Let_def bool_index_def split: sum.splits if_splits)
  from assms l2 an ar len obtain wtail where
    pt: "pot rtail (a [length a - 1 := Fin 0]) = Inr wtail"
    by (auto simp: merge_tail_def Let_def bool_index_def split: sum.splits)
  have w: "map fst (filter snd (zip (map (\<lambda>x. fsub x (last a)) (rdf_w s))
                                  (map (\<lambda>x. fle x (fst rng)) (rdf_r s))))
         = map (\<lambda>p. fsub (snd p) (last a))
             (filter (\<lambda>p. fle (fst p) (fst rng)) (zip (rdf_r s) (rdf_w s)))"
    using len by (rule mask_map)
  from assms l2 an ar len pt
  have "out_r m = filter (\<lambda>x. fle x (fst rng)) (rdf_r s) @ rtail"
    by (auto simp: merge_tail_def Let_def bool_index_def mask_self)
  moreover from assms l2 an ar len pt
  have "out_w m = map (\<lambda>p. fsub (snd p) (last a))
                        (filter (\<lambda>p. fle (fst p) (fst rng)) (zip (rdf_r s) (rdf_w s))) @ wtail"
    by (auto simp: merge_tail_def Let_def bool_index_def w)
  ultimately show ?thesis using l2 an len ar pt by blast
qed


lemma zip_filter_map:
  "length ys = length xs \<Longrightarrow>
   zip (filter P xs) (map (\<lambda>p. f (snd p)) (filter (\<lambda>p. P (fst p)) (zip xs ys)))
     = map (\<lambda>p. (fst p, f (snd p))) (filter (\<lambda>p. P (fst p)) (zip xs ys))"
  by (induction ys xs rule: list_induct2) simp_all

lemma length_filter_zip:
  "length ys = length xs \<Longrightarrow>
   length (filter (\<lambda>p. P (fst p)) (zip xs ys)) = length (filter P xs)"
  by (induction ys xs rule: list_induct2) simp_all

text \<open>The two example runs of the full merge.\<close>

lemma example_merge_1_2:
  "merge_tail arange_example False pot_zero rdf_example (Fin 1, Fin 2) [Fin (7 / 2)]
     = Inr \<lparr> rdf_after = \<lparr> rdf_r = [Fin 1, Fin 2, Fin 3, Fin 4],
                               rdf_g = [Fin (exp (- 5)), Fin (exp (- 2)), Fin 1, Fin 1],
                               rdf_w = [Fin (3 / 2), Fin (- 3 / 2), Fin (- 7 / 2), Fin (- 7 / 2)] \<rparr>,
               a_after = [Fin 0],
               out_r = [Fin 1, Fin 1, Fin 2, Fin 3, Fin 4, Fin 5, Fin 6, Fin 7],
               out_w = [Fin (3 / 2), Fin 0, Fin 0, Fin 0, Fin 0, Fin 0, Fin 0, Fin 0] \<rparr>"
  by (simp add: merge_tail_def rdf_example_def fsub_def arange_example_def bool_index_def
        pot_zero_def Let_def)


text \<open>
  Claim C5. In full-splice mode the head segment reproduces the shifted measured data exactly
  for \<open>r \<le> rmin_fit\<close>: the first \<open>k\<close> output points, where \<open>k\<close> is the number of measured
  points with \<open>r \<le> rmin_fit\<close>, are exactly those measured points, in order, each with its
  \<open>w\<close> shifted by subtracting \<^verbatim>\<open>a[-1]\<close>. The points after them are the model tail: the
  grid that \<^verbatim>\<open>np.arange\<close> returns for \<open>rmin_fit\<close>, \<open>4 * rmax_fit\<close> and \<open>dr\<close>, with the
  values of the potential under the parameters with the shift set to zero.
\<close>

theorem full_merge_head:
  assumes run: "merge_tail arange False pot s rng a = Inr m"
  shows "take (length (filter (\<lambda>x. fle x (fst rng)) (rdf_r s))) (zip (out_r m) (out_w m))
           = map (\<lambda>p. (fst p, fsub (snd p) (last a)))
               (filter (\<lambda>p. fle (fst p) (fst rng)) (zip (rdf_r s) (rdf_w s)))
       \<and> (\<exists>rtail wtail.
             arange (fst rng) (fmul (Fin 4) (snd rng)) (fsub (rdf_r s ! 1) (rdf_r s ! 0)) = Inr rtail
           \<and> pot rtail (a [length a - 1 := Fin 0]) = Inr wtail
           \<and> drop (length (filter (\<lambda>x. fle x (fst rng)) (rdf_r s))) (zip (out_r m) (out_w m))
               = zip rtail wtail)"
proof -
  let ?P = "\<lambda>x. fle x (fst rng)"
  let ?hw = "map (\<lambda>p. fsub (snd p) (last a)) (filter (\<lambda>p. ?P (fst p)) (zip (rdf_r s) (rdf_w s)))"
  from merge_tail_full[OF run] obtain rtail wtail where
    len: "length (rdf_w s) = length (rdf_r s)" and
    ar: "arange (fst rng) (fmul (Fin 4) (snd rng)) (fsub (rdf_r s ! 1) (rdf_r s ! 0)) = Inr rtail" and
    pt: "pot rtail (a [length a - 1 := Fin 0]) = Inr wtail" and
    r: "out_r m = filter ?P (rdf_r s) @ rtail" and
    w: "out_w m = ?hw @ wtail"
    by blast
  have lh: "length ?hw = length (filter ?P (rdf_r s))"
    using length_filter_zip[OF len, of ?P] by simp
  have z: "zip (out_r m) (out_w m) = zip (filter ?P (rdf_r s)) ?hw @ zip rtail wtail"
    unfolding r w using lh by (simp add: zip_append)
  have lz: "length (zip (filter ?P (rdf_r s)) ?hw) = length (filter ?P (rdf_r s))"
    using lh by simp
  have t: "take (length (filter ?P (rdf_r s))) (zip (out_r m) (out_w m))
             = zip (filter ?P (rdf_r s)) ?hw"
    unfolding z using lz by simp
  have d: "drop (length (filter ?P (rdf_r s))) (zip (out_r m) (out_w m)) = zip rtail wtail"
    unfolding z using lz by simp
  from t zip_filter_map[OF len, of ?P "\<lambda>y. fsub y (last a)"] ar pt d show ?thesis by auto
qed


theorem full_merge_head_witness:
  "merge_tail arange_example False pot_zero rdf_example (Fin 1, Fin 2) [Fin (7 / 2)]
     = Inr \<lparr> rdf_after = \<lparr> rdf_r = [Fin 1, Fin 2, Fin 3, Fin 4],
                               rdf_g = [Fin (exp (- 5)), Fin (exp (- 2)), Fin 1, Fin 1],
                               rdf_w = [Fin (3 / 2), Fin (- 3 / 2), Fin (- 7 / 2), Fin (- 7 / 2)] \<rparr>,
               a_after = [Fin 0],
               out_r = [Fin 1, Fin 1, Fin 2, Fin 3, Fin 4, Fin 5, Fin 6, Fin 7],
               out_w = [Fin (3 / 2), Fin 0, Fin 0, Fin 0, Fin 0, Fin 0, Fin 0, Fin 0] \<rparr>
   \<and> take (length (filter (\<lambda>x. fle x (Fin 1)) (rdf_r rdf_example)))
        (zip [Fin 1, Fin 1, Fin 2, Fin 3, Fin 4, Fin 5, Fin 6, Fin 7]
             [Fin (3 / 2), Fin 0, Fin 0, Fin 0, Fin 0, Fin 0, Fin 0, Fin 0])
       = [(Fin 1, Fin (3 / 2))]"
proof -
  note run = example_merge_1_2
  from full_merge_head [OF run] run show ?thesis
    by (simp add: rdf_example_def fsub_def)
qed







section \<open>Loading\<close>

text \<open>
  Claim C3, as the program has it. On a file of at least two rows of two numbers each, the
  loader returns the series with \<open>r\<close> the first column, \<open>g\<close> the second and \<open>w = - ln g\<close>
  elementwise. It never fails on a value of \<open>g\<close>: where \<open>g\<close> is positive \<open>w\<close> is the real
  \<open>- ln g\<close>, where \<open>g\<close> is zero \<open>w\<close> is \<open>+inf\<close>, and where \<open>g\<close> is negative \<open>w\<close> is nan.
\<close>

theorem loader_takes_log:
  assumes ex: "fs filename = Some rows"
      and two: "2 \<le> length rows"
      and cols: "\<forall>row \<in> set rows. length row = 2"
  shows "\<exists>s. rdf_init fs filename = Inr s
           \<and> rdf_r s = map (\<lambda>row. row ! 0) rows
           \<and> rdf_g s = map (\<lambda>row. row ! 1) rows
           \<and> length (rdf_w s) = length rows
           \<and> (\<forall>i < length rows.
                 rdf_w s ! i =
                   (case rdf_g s ! i of
                      Fin x \<Rightarrow> if 0 < x then Fin (- ln x) else if x = 0 then PInf else NaN
                    | PInf \<Rightarrow> NInf
                    | NInf \<Rightarrow> NaN
                    | NaN \<Rightarrow> NaN))"
proof -
  from two obtain row rest where rows: "rows = row # rest" by (cases rows) auto
  with cols have "length row = 2" "\<forall>x \<in> set rest. length x = length row" by auto
  with rows two have sh: "loadtxt_shape rows = Inr [length rows, 2]"
    by (auto simp: loadtxt_shape_def)
  have w: "fneg (np_log1 x) =
      (case x of Fin x \<Rightarrow> if 0 < x then Fin (- ln x) else if x = 0 then PInf else NaN
       | PInf \<Rightarrow> NInf | NInf \<Rightarrow> NaN | NaN \<Rightarrow> NaN)" for x
    by (cases x) simp_all
  show ?thesis
    using ex sh by (simp add: rdf_init_def w)
qed

theorem loader_takes_log_witness:
  "[''gofr.dat'' \<mapsto> [[Fin 1, Fin 1], [Fin 2, Fin (- 1)]]] ''gofr.dat'' = Some [[Fin 1, Fin 1], [Fin 2, Fin (- 1)]]
   \<and> (2 :: nat) \<le> length [[Fin 1, Fin 1], [Fin 2, Fin (- 1)]]
   \<and> (\<exists>s. rdf_init [''gofr.dat'' \<mapsto> [[Fin 1, Fin 1], [Fin 2, Fin (- 1)]]] ''gofr.dat'' = Inr s
          \<and> rdf_r s = [Fin 1, Fin 2] \<and> rdf_g s = [Fin 1, Fin (- 1)] \<and> length (rdf_w s) = 2)"
proof -
  have ex: "[''gofr.dat'' \<mapsto> [[Fin 1, Fin 1], [Fin 2, Fin (- 1)]]] ''gofr.dat'' = Some [[Fin 1, Fin 1], [Fin 2, Fin (- 1)]]"
    by simp
  have two: "(2 :: nat) \<le> length [[Fin 1, Fin 1], [Fin 2, Fin (- 1)]]" by simp
  have cols: "\<forall>row \<in> set [[Fin 1, Fin 1], [Fin 2, Fin (- 1)]]. length row = 2" by simp
  from loader_takes_log [of "[''gofr.dat'' \<mapsto> [[Fin 1, Fin 1], [Fin 2, Fin (- 1)]]]" "''gofr.dat''"
         "[[Fin 1, Fin 1], [Fin 2, Fin (- 1)]]", OF ex two cols]
  obtain s where h:
    "rdf_init [''gofr.dat'' \<mapsto> [[Fin 1, Fin 1], [Fin 2, Fin (- 1)]]] ''gofr.dat'' = Inr s"
    "rdf_r s = map (\<lambda>row. row ! 0) [[Fin 1, Fin 1], [Fin 2, Fin (- 1)]]"
    "rdf_g s = map (\<lambda>row. row ! 1) [[Fin 1, Fin 1], [Fin 2, Fin (- 1)]]"
    "length (rdf_w s) = length [[Fin 1, Fin 1], [Fin 2, Fin (- 1)]]"
    by (elim exE conjE)
  from h(2) have r: "rdf_r s = [Fin 1, Fin 2]" by simp
  from h(3) have g: "rdf_g s = [Fin 1, Fin (- 1)]" by simp
  from h(4) have l: "length (rdf_w s) = 2" by simp
  from h(1) r g l
  have "\<exists>s. rdf_init [''gofr.dat'' \<mapsto> [[Fin 1, Fin 1], [Fin 2, Fin (- 1)]]] ''gofr.dat'' = Inr s
          \<and> rdf_r s = [Fin 1, Fin 2] \<and> rdf_g s = [Fin 1, Fin (- 1)] \<and> length (rdf_w s) = 2"
    by (intro exI conjI)
  with ex two show ?thesis by (intro conjI)
qed

text \<open>
  The claim as written has the loader fail with a domain error when some \<open>g\<close> is at most zero.
  A file whose first row has \<open>g = 0\<close> loads, with \<open>w = +inf\<close> there.
\<close>

theorem loader_takes_log_counterexample:
  "fle (Fin 0) (Fin 0)
   \<and> rdf_init [''gofr.dat'' \<mapsto> [[Fin 1, Fin 0], [Fin 2, Fin 1]]] ''gofr.dat''
       = Inr \<lparr> rdf_r = [Fin 1, Fin 2], rdf_g = [Fin 0, Fin 1], rdf_w = [PInf, Fin 0] \<rparr>"
  by (simp add: rdf_init_def loadtxt_shape_def)

section \<open>The fit step\<close>

text \<open>
  Claim C4, as the program has it. The fit step makes no check of its own and the program
  defines neither \<^verbatim>\<open>InsufficientDataError\<close> nor \<^verbatim>\<open>FitConvergenceError\<close>: whatever the
  fit range selects is handed to \<^verbatim>\<open>curve_fit\<close>, and the outcome of the step is the outcome
  of that call, whatever \<^verbatim>\<open>curve_fit\<close> does; when the range selects no point the call is
  made on two empty arrays.
\<close>

theorem fit_step_no_check:
  assumes len: "length (rdf_g s) = length (rdf_r s)"
  shows "(\<exists>rs gs. slice s rmin rmax = Inr (rs, gs)
            \<and> length rs = length (filter (\<lambda>x. fle rmin x \<and> fle x rmax) (rdf_r s))
            \<and> length gs = length rs
            \<and> fit_step cf pot s (rmin, rmax) guess
                = cf pot rs (map (\<lambda>x. fneg (np_log1 x)) gs) guess)
       \<and> ((\<forall>x \<in> set (rdf_r s). \<not> (fle rmin x \<and> fle x rmax))
            \<longrightarrow> fit_step cf pot s (rmin, rmax) guess = cf pot [] [] guess)"
proof -
  let ?P = "\<lambda>x. fle rmin x \<and> fle x rmax"
  let ?sel = "filter (\<lambda>p. ?P (fst p)) (zip (rdf_r s) (rdf_g s))"
  have sl: "slice s rmin rmax = Inr (map fst ?sel, map snd ?sel)"
    using len by (rule slice_eq)
  have lsel: "length ?sel = length (filter ?P (rdf_r s))"
    using length_filter_zip[OF len, of ?P] .
  have step: "fit_step cf pot s (rmin, rmax) guess
                = cf pot (map fst ?sel) (map (\<lambda>x. fneg (np_log1 x)) (map snd ?sel)) guess"
    by (simp add: fit_step_def sl)
  have a: "\<exists>rs gs. slice s rmin rmax = Inr (rs, gs)
            \<and> length rs = length (filter ?P (rdf_r s))
            \<and> length gs = length rs
            \<and> fit_step cf pot s (rmin, rmax) guess
                = cf pot rs (map (\<lambda>x. fneg (np_log1 x)) gs) guess"
    using sl lsel step by simp
  have b: "fit_step cf pot s (rmin, rmax) guess = cf pot [] [] guess"
    if "\<forall>x \<in> set (rdf_r s). \<not> ?P x"
  proof -
    from that have "?sel = []" by (auto simp: filter_empty_conv dest: set_zip_leftD)
    with step show ?thesis by simp
  qed
  from a b show ?thesis by blast
qed

theorem fit_step_no_check_witness:
  "length (rdf_g rdf_example) = length (rdf_r rdf_example)
   \<and> slice rdf_example (Fin 5) (Fin 6) = Inr ([], [])
   \<and> (\<forall>cf. fit_step cf pot_zero rdf_example (Fin 5, Fin 6) [Fin 0] = cf pot_zero [] [] [Fin 0])"
proof -
  have len: "length (rdf_g rdf_example) = length (rdf_r rdf_example)"
    by (simp add: rdf_example_def)
  have sl: "slice rdf_example (Fin 5) (Fin 6) = Inr ([], [])"
    by (simp add: slice_def bool_index_def fge_def rdf_example_def)
  have none: "\<forall>x \<in> set (rdf_r rdf_example). \<not> (fle (Fin 5) x \<and> fle x (Fin 6))"
    by (simp add: rdf_example_def)
  have a: "fit_step cf pot_zero rdf_example (Fin 5, Fin 6) [Fin 0] = cf pot_zero [] [] [Fin 0]"
    for cf
    using fit_step_no_check [OF len, of "Fin 5" "Fin 6" cf pot_zero "[Fin 0]"] none by blast
  then have "\<forall>cf. fit_step cf pot_zero rdf_example (Fin 5, Fin 6) [Fin 0] = cf pot_zero [] [] [Fin 0]"
    by (rule allI)
  with len sl show ?thesis by (intro conjI)
qed

text \<open>
  The claim as written has the step fail with \<^verbatim>\<open>InsufficientDataError\<close> on an empty
  selection and with \<^verbatim>\<open>FitConvergenceError\<close> on one shorter than the guess. The range
  \<open>[5, 6]\<close> selects nothing and the range \<open>[2, 2]\<close> one point for the two parameters of the
  guess \<open>[30, 0]\<close>: in both runs the step is the call of \<^verbatim>\<open>curve_fit\<close> on what was
  selected and nothing else, so that it ends as the library does there, with one of SciPy's
  own exceptions.
\<close>

theorem fit_step_no_check_counterexample:
  "slice rdf_example (Fin 5) (Fin 6) = Inr ([], [])
   \<and> (\<forall>cf. fit_step cf pot_zero rdf_example (Fin 5, Fin 6) [Fin 0] = cf pot_zero [] [] [Fin 0])
   \<and> slice rdf_example (Fin 2) (Fin 2) = Inr ([Fin 2], [Fin (exp (- 2))])
   \<and> (\<forall>cf. fit_step cf pot_zero rdf_example (Fin 2, Fin 2) [Fin 30, Fin 0]
              = cf pot_zero [Fin 2] [Fin 2] [Fin 30, Fin 0])"
  by (simp add: fit_step_def slice_def bool_index_def fge_def rdf_example_def)

section \<open>The virial coefficient on finite curves\<close>

lemma fold_min_Fin:
  "fold (\<lambda>y m. if flt y m then y else m) (map Fin xs) (Fin a) = Fin (fold min xs a)"
proof (induction xs arbitrary: a)
  case Nil
  then show ?case by simp
next
  case (Cons x xs)
  have "(if x < a then x else a) = min x a" by (simp add: min_def)
  with Cons show ?case by simp
qed

lemma py_min_Fin: "rs \<noteq> [] \<Longrightarrow> py_min (map Fin rs) = Inr (Fin (Min (set rs)))"
  by (cases rs) (simp_all add: fold_min_Fin Min.set_eq_fold del: set_simps)

lemma fold_max_Fin:
  "fold (\<lambda>y m. if fgt y m then y else m) (map Fin xs) (Fin a) = Fin (fold max xs a)"
proof (induction xs arbitrary: a)
  case Nil
  then show ?case by simp
next
  case (Cons x xs)
  have "(if a < x then x else a) = max x a" by (simp add: max_def)
  with Cons show ?case by (simp add: fgt_def)
qed

lemma py_max_Fin: "rs \<noteq> [] \<Longrightarrow> py_max (map Fin rs) = Inr (Fin (Max (set rs)))"
  by (cases rs) (simp_all add: fold_max_Fin Max.set_eq_fold del: set_simps)

lemma foldl_fadd_Fin: "foldl fadd (Fin a) (map Fin xs) = Fin (a + sum_list xs)"
  by (induction xs arbitrary: a) (simp_all add: add.assoc)

lemma np_sum_Fin: "np_sum (map Fin xs) = Fin (sum_list xs)"
  by (simp add: np_sum_def foldl_fadd_Fin)

lemma map2_Fin:
  "(\<And>x y. f (Fin x) (Fin y) = Fin (h x y)) \<Longrightarrow>
   map2 f (map Fin xs) (map Fin ys) = map Fin (map2 h xs ys)"
  by (induction xs arbitrary: ys) (auto simp: zip_Cons1 split: list.splits) 

lemma np_diff_Fin: "np_diff (map Fin xs) = map Fin (map2 (-) (tl xs) (butlast xs))"
proof -
  have "map2 fsub (map Fin (tl xs)) (map Fin (butlast xs)) = map Fin (map2 (-) (tl xs) (butlast xs))"
    by (rule map2_Fin) (simp add: fsub_def)
  then show ?thesis by (simp add: np_diff_def map_tl map_butlast)
qed

lemma np_trapz_Fin:
  assumes "length ys = length xs"
  shows "np_trapz (map Fin ys) (map Fin xs) = Inr (Fin (trapezoid_rule xs ys))"
proof -
  let ?d = "map2 (-) (tl xs) (butlast xs)"
  let ?s = "map2 (+) (tl ys) (butlast ys)"
  have s: "map2 fadd (tl (map Fin ys)) (butlast (map Fin ys)) = map Fin ?s"
    using map2_Fin[of fadd "(+)" "tl ys" "butlast ys"] by (simp add: map_tl map_butlast)
  have len: "length ?d = length ?s" using assms by simp
  have p: "np_binop fmul (map Fin ?d) (map Fin ?s) = Inr (map Fin (map2 (*) ?d ?s))"
    using len map2_Fin[of fmul "(*)" ?d ?s] by (simp add: np_binop_def)
  have h: "map (\<lambda>v. fdiv v (Fin 2)) (map Fin zs) = map Fin (map (\<lambda>v. v / 2) zs)" for zs
    by simp
  have t: "np_trapz (map Fin ys) (map Fin xs) = Inr (Fin (sum_list (map (\<lambda>v. v / 2) (map2 (*) ?d ?s))))"
    unfolding np_trapz_def np_diff_Fin s p by (simp only: sum.case h np_sum_Fin)
  have ln: "length (map (\<lambda>v. v / 2) (map2 (*) ?d ?s)) = length xs - 1"
    using assms by simp
  have nth: "map (\<lambda>v. v / 2) (map2 (*) ?d ?s) ! i = (xs ! (i + 1) - xs ! i) * (ys ! i + ys ! (i + 1)) / 2"
    if "i < length xs - 1" for i
    using that assms by (simp add: nth_tl nth_butlast add.commute)
  have "sum_list (map (\<lambda>v. v / 2) (map2 (*) ?d ?s)) = trapezoid_rule xs ys"
    unfolding trapezoid_rule_def sum_list_sum_nth ln atLeast0LessThan
    by (rule sum.cong) (simp_all only: nth lessThan_iff)
  with t show ?thesis by simp
qed


lemma integrand_Fin:
  assumes "length ws = length rs"
  shows "np_binop fmul
           (map (\<lambda>x. fmul (Fin (- 2 * pi)) (fsub (np_exp1 (fneg x)) (Fin 1))) (map Fin ws))
           (map (\<lambda>x. fpow x 2) (map Fin rs))
         = Inr (map Fin (map2 B2_integrand rs ws))"
proof -
  have "map2 fmul
           (map (\<lambda>x. fmul (Fin (- 2 * pi)) (fsub (np_exp1 (fneg x)) (Fin 1))) (map Fin ws))
           (map (\<lambda>x. fpow x 2) (map Fin rs))
         = map Fin (map2 B2_integrand rs ws)"
    using assms
    by (induction ws rs rule: list_induct2)
       (simp_all add: B2_integrand_def fsub_def numeral_2_eq_2 power2_eq_square)
  with assms show ?thesis by (simp add: np_binop_def)
qed

lemma VirialCoefficient_finite:
  assumes ne: "rs \<noteq> []" and len: "length ws = length rs"
  shows "VirialCoefficient NA (map Fin rs) (map Fin ws) mw =
     (let hs = 2 * pi / 3 * Min (set rs) ^ 3;
          tot = hs + trapezoid_rule rs (map2 B2_integrand rs ws);
          b2 = [''hs'' \<mapsto> Num (Fin hs), ''tot'' \<mapsto> Num (Fin tot),
                ''reduced'' \<mapsto> Num (fdiv (Fin tot) (Fin hs)),
                ''hsrange'' \<mapsto> Rng (Fin 0) (Fin (Min (set rs))),
                ''range'' \<mapsto> Rng (Fin 0) (Fin (Max (set rs)))] in
      case mw of
        [] \<Rightarrow> Inl IndexError
      | mw0 # rest \<Rightarrow>
          if fgt mw0 (Fin 0) then
            (case rest of
               [] \<Rightarrow> Inl IndexError
             | mw1 # _ \<Rightarrow>
                 if fgt mw1 (Fin 0) then
                   Inr (b2(''mlmol/g2'' \<mapsto>
                     Num (fdiv (fdiv (fmul (fmul (Fin tot) (Fin NA)) (Fin (1 / 10 ^ 24))) mw0) mw1)))
                 else Inr b2)
          else Inr b2)"
proof -
  have l: "length (map2 B2_integrand rs ws) = length rs" using len by simp
  have p: "fpow (Fin x) 3 = Fin (x ^ 3)" for x
    by (simp add: numeral_3_eq_3 power3_eq_cube)
  show ?thesis
    by (simp only: VirialCoefficient_def py_min_Fin[OF ne] py_max_Fin[OF ne] integrand_Fin[OF len]
      np_trapz_Fin[OF l] sum.case Let_def p fmul.simps fadd.simps)
qed

lemma VirialCoefficient_Inr:
  assumes "VirialCoefficient NA r w mw = Inr b2"
  shows "\<exists>rmin t. py_min r = Inr rmin
           \<and> b2 ''hs'' = Some (Num (fmul (Fin (2 * pi / 3)) (fpow rmin 3)))
           \<and> b2 ''tot'' = Some (Num (fadd (fmul (Fin (2 * pi / 3)) (fpow rmin 3)) t))
           \<and> b2 ''reduced'' = Some (Num (fdiv (fadd (fmul (Fin (2 * pi / 3)) (fpow rmin 3)) t)
                                            (fmul (Fin (2 * pi / 3)) (fpow rmin 3))))
           \<and> mw \<noteq> []
           \<and> (fgt (hd mw) (Fin 0) \<longrightarrow> tl mw \<noteq> [])
           \<and> b2 ''mlmol/g2'' =
               (if fgt (hd mw) (Fin 0) \<and> fgt (hd (tl mw)) (Fin 0)
                then Some (Num (fdiv (fdiv (fmul (fmul (fadd (fmul (Fin (2 * pi / 3)) (fpow rmin 3)) t)
                                  (Fin NA)) (Fin (1 / 10 ^ 24))) (hd mw)) (hd (tl mw))))
                else None)"
  using assms unfolding VirialCoefficient_def Let_def
  by (auto split: sum.splits list.splits if_splits)


lemma VirialCoefficient_returns:
  assumes ne: "r \<noteq> []" and len: "length w = length r"
  shows "\<exists>b2. VirialCoefficient NA r w [mw1, mw2] = Inr b2"
proof -
  from ne obtain lo where lo: "py_min r = Inr lo" by (cases r) auto
  from ne obtain hi where hi: "py_max r = Inr hi" by (cases r) auto
  let ?y = "map2 fmul (map (\<lambda>x. fmul (Fin (- 2 * pi)) (fsub (np_exp1 (fneg x)) (Fin 1))) w)
                      (map (\<lambda>x. fpow x 2) r)"
  have y: "np_binop fmul (map (\<lambda>x. fmul (Fin (- 2 * pi)) (fsub (np_exp1 (fneg x)) (Fin 1))) w)
             (map (\<lambda>x. fpow x 2) r) = Inr ?y"
    using len by (simp add: np_binop_def)
  have ly: "length ?y = length r" using len by simp
  have "\<exists>t. np_trapz ?y r = Inr t"
    using ly by (simp add: np_trapz_def np_binop_def np_diff_def)
  then obtain t where t: "np_trapz ?y r = Inr t" ..
  show ?thesis
    by (cases "fgt mw1 (Fin 0)"; cases "fgt mw2 (Fin 0)")
       (simp_all only: VirialCoefficient_def lo hi y t sum.case Let_def list.case if_True if_False
          sum.inject simp_thms)
qed

lemma trapezoid_zero: "trapezoid_rule rs (map2 B2_integrand rs (replicate (length rs) 0)) = 0"
proof -
  have "map2 B2_integrand rs (replicate (length rs) 0) ! i = 0" if "i < length rs" for i
    using that by (simp add: B2_integrand_def)
  then show ?thesis
    unfolding trapezoid_rule_def by (intro sum.neutral) simp
qed

lemma example_zero_curve:
  "VirialCoefficient (602214076 * 10 ^ 15) (map Fin [0, 1]) (map Fin [0, 0]) [Fin 0, Fin 0]
     = Inr [''hs'' \<mapsto> Num (Fin 0), ''tot'' \<mapsto> Num (Fin 0), ''reduced'' \<mapsto> Num NaN,
            ''hsrange'' \<mapsto> Rng (Fin 0) (Fin 0), ''range'' \<mapsto> Rng (Fin 0) (Fin 1)]"
proof -
  have ne: "[0, 1 :: real] \<noteq> []" by simp
  have len: "length [0, 0 :: real] = length [0, 1 :: real]" by simp
  have t: "trapezoid_rule [0, 1] (map2 B2_integrand [0, 1] [0, 0]) = 0"
    by (simp add: trapezoid_rule_def B2_integrand_def)
  have mn: "Min (set [0, 1 :: real]) = 0" by simp
  have mx: "Max (set [0, 1 :: real]) = 1" by simp
  have f: "fgt (Fin 0) (Fin 0) = False" by (simp add: fgt_def)
  show ?thesis
    unfolding VirialCoefficient_finite[OF ne len] Let_def t mn mx
    by (simp add: f)
qed


text \<open>
  Claim C1. For every non-empty combined curve of finite values, \<open>r\<close> and \<open>w\<close> of one length,
  and every pair of molar masses, \<^verbatim>\<open>VirialCoefficient\<close> returns a dictionary in which
  \<^verbatim>\<open>hs\<close> is \<open>2\<pi>/3\<close> times the cube of the smallest \<open>r\<close>, \<^verbatim>\<open>tot\<close> is \<^verbatim>\<open>hs\<close> plus
  the trapezoidal-rule integral of \<open>-2\<pi> (exp (-w) - 1) r\<^sup>2\<close> over the curve, and
  \<^verbatim>\<open>reduced\<close> is \<^verbatim>\<open>tot\<close> divided by \<^verbatim>\<open>hs\<close> (the real quotient when the smallest
  \<open>r\<close> is not zero).
\<close>

theorem virial_coefficient_formulas:
  assumes ne: "rs \<noteq> []" and len: "length ws = length rs"
  shows "\<exists>b2. VirialCoefficient NA (map Fin rs) (map Fin ws) [mw1, mw2] = Inr b2
     \<and> b2 ''hs'' = Some (Num (Fin (2 * pi / 3 * Min (set rs) ^ 3)))
     \<and> b2 ''tot'' = Some (Num (Fin (2 * pi / 3 * Min (set rs) ^ 3
                                   + trapezoid_rule rs (map2 B2_integrand rs ws))))
     \<and> b2 ''reduced'' = Some (Num (fdiv
           (Fin (2 * pi / 3 * Min (set rs) ^ 3 + trapezoid_rule rs (map2 B2_integrand rs ws)))
           (Fin (2 * pi / 3 * Min (set rs) ^ 3))))
     \<and> (Min (set rs) \<noteq> 0 \<longrightarrow>
          b2 ''reduced'' = Some (Num (Fin
           ((2 * pi / 3 * Min (set rs) ^ 3 + trapezoid_rule rs (map2 B2_integrand rs ws))
            / (2 * pi / 3 * Min (set rs) ^ 3)))))"
  unfolding VirialCoefficient_finite[OF ne len] Let_def
  by (cases "fgt mw1 (Fin 0)"; cases "fgt mw2 (Fin 0)") simp_all

theorem virial_coefficient_formulas_witness:
  "[1, 2 :: real] \<noteq> [] \<and> length [0, ln 2 :: real] = length [1, 2 :: real]
   \<and> (\<exists>b2. VirialCoefficient (602214076 * 10 ^ 15) [Fin 1, Fin 2] [Fin 0, Fin (ln 2)] [Fin 0, Fin 0]
              = Inr b2
          \<and> b2 ''hs'' = Some (Num (Fin (2 * pi / 3)))
          \<and> b2 ''tot'' = Some (Num (Fin (8 * pi / 3)))
          \<and> b2 ''reduced'' = Some (Num (Fin 4)))"
  using virial_coefficient_formulas [of "[1, 2]" "[0, ln 2]" "602214076 * 10 ^ 15" "Fin 0" "Fin 0"]
  by (simp add: trapezoid_rule_def B2_integrand_def exp_minus)


text \<open>
  Claim C8. For every non-empty curve with \<open>r\<close> and \<open>w\<close> of one length, the result of
  \<^verbatim>\<open>VirialCoefficient\<close> has the key \<^verbatim>\<open>mlmol/g2\<close> if and only if both molar masses are
  greater than zero; its value is then \<^verbatim>\<open>tot * N_A * 1e-24 / mw[0] / mw[1]\<close>, which for
  finite values is the real number \<open>tot * N\<^sub>A * 10\<^sup>-\<^sup>2\<^sup>4 / mw\<^sub>1 / mw\<^sub>2\<close>.
\<close>

theorem molar_mass_field:
  assumes ne: "r \<noteq> []" and len: "length w = length r"
  shows "\<exists>b2 tot. VirialCoefficient NA r w [mw1, mw2] = Inr b2
           \<and> b2 ''tot'' = Some (Num tot)
           \<and> (b2 ''mlmol/g2'' \<noteq> None \<longleftrightarrow> fgt mw1 (Fin 0) \<and> fgt mw2 (Fin 0))
           \<and> (fgt mw1 (Fin 0) \<and> fgt mw2 (Fin 0) \<longrightarrow>
                b2 ''mlmol/g2''
                  = Some (Num (fdiv (fdiv (fmul (fmul tot (Fin NA)) (Fin (1 / 10 ^ 24))) mw1) mw2)))
           \<and> (\<forall>t m1 m2. tot = Fin t \<and> mw1 = Fin m1 \<and> mw2 = Fin m2 \<and> 0 < m1 \<and> 0 < m2 \<longrightarrow>
                b2 ''mlmol/g2'' = Some (Num (Fin (t * NA * (1 / 10 ^ 24) / m1 / m2))))"
proof -
  from VirialCoefficient_returns[OF ne len] obtain b2
    where b2: "VirialCoefficient NA r w [mw1, mw2] = Inr b2" ..
  from VirialCoefficient_Inr[OF b2] obtain tot where
    t: "b2 ''tot'' = Some (Num tot)" and
    k: "b2 ''mlmol/g2'' =
          (if fgt mw1 (Fin 0) \<and> fgt mw2 (Fin 0)
           then Some (Num (fdiv (fdiv (fmul (fmul tot (Fin NA)) (Fin (1 / 10 ^ 24))) mw1) mw2))
           else None)"
    by auto
  have fin: "b2 ''mlmol/g2'' = Some (Num (Fin (t * NA * (1 / 10 ^ 24) / m1 / m2)))"
    if "tot = Fin t \<and> mw1 = Fin m1 \<and> mw2 = Fin m2 \<and> 0 < m1 \<and> 0 < m2" for t m1 m2
    using that k by (simp add: fgt_def)
  from b2 t k fin show ?thesis by auto
qed



theorem molar_mass_field_witness:
  "[Fin 1, Fin 2] \<noteq> [] \<and> length [Fin 0, Fin 0] = length [Fin 1, Fin 2]
   \<and> fgt (Fin 2) (Fin 0) \<and> fgt (Fin 5) (Fin 0) \<and> \<not> fgt (Fin 0) (Fin 0)
   \<and> (\<exists>b2 tot. VirialCoefficient (10 ^ 24) [Fin 1, Fin 2] [Fin 0, Fin 0] [Fin 2, Fin 5] = Inr b2
          \<and> b2 ''tot'' = Some (Num tot)
          \<and> b2 ''mlmol/g2''
               = Some (Num (fdiv (fdiv (fmul (fmul tot (Fin (10 ^ 24))) (Fin (1 / 10 ^ 24)))
                                   (Fin 2)) (Fin 5))))
   \<and> (\<exists>b2. VirialCoefficient (10 ^ 24) [Fin 1, Fin 2] [Fin 0, Fin 0] [Fin 2, Fin 0] = Inr b2
          \<and> b2 ''mlmol/g2'' = None)"
proof -
  have ne: "[Fin 1, Fin 2] \<noteq> []" by simp
  have len: "length [Fin 0, Fin 0] = length [Fin 1, Fin 2]" by simp
  have g: "fgt (Fin 2) (Fin 0)" "fgt (Fin 5) (Fin 0)" "\<not> fgt (Fin 0) (Fin 0)"
    by (simp_all add: fgt_def)
  from molar_mass_field [OF ne len, of "10 ^ 24" "Fin 2" "Fin 5"]
  obtain b2 tot where h:
    "VirialCoefficient (10 ^ 24) [Fin 1, Fin 2] [Fin 0, Fin 0] [Fin 2, Fin 5] = Inr b2"
    "b2 ''tot'' = Some (Num tot)"
    "fgt (Fin 2) (Fin 0) \<and> fgt (Fin 5) (Fin 0) \<longrightarrow>
       b2 ''mlmol/g2''
         = Some (Num (fdiv (fdiv (fmul (fmul tot (Fin (10 ^ 24))) (Fin (1 / 10 ^ 24)))
                             (Fin 2)) (Fin 5)))"
    by (elim exE conjE)
  from h(3) g have "b2 ''mlmol/g2''
         = Some (Num (fdiv (fdiv (fmul (fmul tot (Fin (10 ^ 24))) (Fin (1 / 10 ^ 24)))
                             (Fin 2)) (Fin 5)))"
    by simp
  with h(1,2)
  have one: "\<exists>b2 tot. VirialCoefficient (10 ^ 24) [Fin 1, Fin 2] [Fin 0, Fin 0] [Fin 2, Fin 5] = Inr b2
          \<and> b2 ''tot'' = Some (Num tot)
          \<and> b2 ''mlmol/g2''
               = Some (Num (fdiv (fdiv (fmul (fmul tot (Fin (10 ^ 24))) (Fin (1 / 10 ^ 24)))
                                   (Fin 2)) (Fin 5)))"
    by (intro exI conjI)
  from molar_mass_field [OF ne len, of "10 ^ 24" "Fin 2" "Fin 0"]
  obtain c2 where k:
    "VirialCoefficient (10 ^ 24) [Fin 1, Fin 2] [Fin 0, Fin 0] [Fin 2, Fin 0] = Inr c2"
    "c2 ''mlmol/g2'' \<noteq> None \<longleftrightarrow> fgt (Fin 2) (Fin 0) \<and> fgt (Fin 0) (Fin 0)"
    by (elim exE conjE)
  from k(2) g have "c2 ''mlmol/g2'' = None" by simp
  with k(1)
  have two: "\<exists>b2. VirialCoefficient (10 ^ 24) [Fin 1, Fin 2] [Fin 0, Fin 0] [Fin 2, Fin 0] = Inr b2
          \<and> b2 ''mlmol/g2'' = None"
    by (intro exI conjI)
  from ne len g one two show ?thesis by (intro conjI)
qed


text \<open>The curve with \<open>w = 0\<close> at every sample point, in the arithmetic of the model.\<close>

lemma zero_curve:
  assumes ne: "rs \<noteq> []"
  shows "\<exists>b2. VirialCoefficient NA (map Fin rs) (replicate (length rs) (Fin 0)) [mw1, mw2] = Inr b2
     \<and> b2 ''hs'' = Some (Num (Fin (2 * pi / 3 * Min (set rs) ^ 3)))
     \<and> b2 ''tot'' = Some (Num (Fin (2 * pi / 3 * Min (set rs) ^ 3)))
     \<and> b2 ''reduced'' = Some (Num (fdiv (Fin (2 * pi / 3 * Min (set rs) ^ 3))
                                         (Fin (2 * pi / 3 * Min (set rs) ^ 3))))"
proof -
  have rep: "replicate (length rs) (Fin 0) = map Fin (replicate (length rs) 0)" by simp
  have len: "length (replicate (length rs) (0::real)) = length rs" by simp
  show ?thesis
    unfolding rep VirialCoefficient_finite[OF ne len] Let_def trapezoid_zero
    by (cases "fgt mw1 (Fin 0)"; cases "fgt mw2 (Fin 0)") simp_all
qed

text \<open>
  Claim C9, as the program has it. For every non-empty curve with \<open>w = 0\<close> at every sample
  point and every \<open>r\<close> of a magnitude between \<open>10\<^sup>-\<^sup>1\<^sup>0\<^sup>0\<close> and \<open>10\<^sup>1\<^sup>0\<^sup>0\<close>,
  \<^verbatim>\<open>hs\<close> is finite and not zero, \<^verbatim>\<open>tot\<close> equals \<^verbatim>\<open>hs\<close> and \<^verbatim>\<open>reduced\<close> is
  \<open>1\<close>. The bounds keep the squares and the cube of the program's \<^verbatim>\<open>float64\<close> values
  away from underflow and overflow, where the integrand \<open>0 \<sqdot> r\<^sup>2\<close> is nan and the cube
  of a non-zero \<open>r\<close> is zero.
\<close>

theorem ideal_gas_reduced:
  assumes ne: "rs \<noteq> []"
      and bnd: "\<forall>x \<in> set rs. 1 / 10 ^ 100 \<le> \<bar>x\<bar> \<and> \<bar>x\<bar> \<le> 10 ^ 100"
  shows "\<exists>b2 hs. VirialCoefficient NA (map Fin rs) (replicate (length rs) (Fin 0)) [mw1, mw2] = Inr b2
     \<and> b2 ''hs'' = Some (Num (Fin hs)) \<and> hs \<noteq> 0
     \<and> b2 ''tot'' = Some (Num (Fin hs))
     \<and> b2 ''reduced'' = Some (Num (Fin 1))"
proof -
  let ?hs = "2 * pi / 3 * Min (set rs) ^ 3"
  from ne have "Min (set rs) \<in> set rs" by simp
  with bnd have "1 / 10 ^ 100 \<le> \<bar>Min (set rs)\<bar>" by blast
  moreover have "(0 :: real) < 1 / 10 ^ 100" by simp
  ultimately have "0 < \<bar>Min (set rs)\<bar>" by linarith
  then have m: "Min (set rs) \<noteq> 0" by simp
  then have h: "?hs \<noteq> 0" by simp
  from zero_curve [OF ne, of NA mw1 mw2] obtain b2 where b:
    "VirialCoefficient NA (map Fin rs) (replicate (length rs) (Fin 0)) [mw1, mw2] = Inr b2"
    "b2 ''hs'' = Some (Num (Fin ?hs))"
    "b2 ''tot'' = Some (Num (Fin ?hs))"
    "b2 ''reduced'' = Some (Num (fdiv (Fin ?hs) (Fin ?hs)))"
    by (elim exE conjE)
  from h have "fdiv (Fin ?hs) (Fin ?hs) = Fin 1" by simp
  with b(4) have r: "b2 ''reduced'' = Some (Num (Fin 1))" by simp
  from b(1,2) h b(3) r show ?thesis by (intro exI conjI)
qed

theorem ideal_gas_reduced_witness:
  "[1, 2 :: real] \<noteq> []
   \<and> (\<exists>b2 hs. VirialCoefficient (602214076 * 10 ^ 15) (map Fin [1, 2])
              (replicate (length [1, 2 :: real]) (Fin 0)) [Fin 0, Fin 0] = Inr b2
          \<and> b2 ''hs'' = Some (Num (Fin hs)) \<and> hs \<noteq> 0
          \<and> b2 ''tot'' = Some (Num (Fin hs)) \<and> b2 ''reduced'' = Some (Num (Fin 1)))"
proof -
  have ne: "[1, 2 :: real] \<noteq> []" by simp
  have bnd: "\<forall>x \<in> set [1, 2 :: real]. 1 / 10 ^ 100 \<le> \<bar>x\<bar> \<and> \<bar>x\<bar> \<le> 10 ^ 100" by simp
  from ideal_gas_reduced [OF ne bnd, of "602214076 * 10 ^ 15" "Fin 0" "Fin 0"] ne
  show ?thesis by (intro conjI)
qed

text \<open>
  The claim as written is for every curve with \<open>w = 0\<close>. On the curve \<open>r = [0, 1]\<close> the
  hard-sphere term is zero and \<^verbatim>\<open>reduced\<close> is \<open>0 / 0\<close>, nan; on the empty curve
  \<^verbatim>\<open>min(r)\<close> raises.
\<close>

theorem ideal_gas_reduced_counterexample:
  "VirialCoefficient (602214076 * 10 ^ 15) [Fin 0, Fin 1] [Fin 0, Fin 0] [Fin 0, Fin 0]
     = Inr [''hs'' \<mapsto> Num (Fin 0), ''tot'' \<mapsto> Num (Fin 0), ''reduced'' \<mapsto> Num NaN,
            ''hsrange'' \<mapsto> Rng (Fin 0) (Fin 0), ''range'' \<mapsto> Rng (Fin 0) (Fin 1)]
   \<and> VirialCoefficient (602214076 * 10 ^ 15) [] [] [Fin 0, Fin 0] = Inl ValueError"
proof -
  have "VirialCoefficient (602214076 * 10 ^ 15) [] [] [Fin 0, Fin 0] = Inl ValueError"
    by (simp add: VirialCoefficient_def)
  with example_zero_curve show ?thesis by simp
qed

section \<open>Rounding to binary64\<close>

lemma round_even_bounds: "\<lfloor>y\<rfloor> \<le> round_even y \<and> round_even y \<le> \<lfloor>y\<rfloor> + 1"
  by (simp add: round_even_def Let_def)

lemma round_even_of_int: "round_even (of_int n) = n"
  by (simp add: round_even_def Let_def)

lemma round_even_small:
  assumes "\<bar>y\<bar> < 1 / 2"
  shows "round_even y = 0"
proof (cases "0 \<le> y")
  case True
  with assms have "\<lfloor>y\<rfloor> = 0" by (simp add: floor_eq_iff)
  with assms True show ?thesis by (simp add: round_even_def Let_def)
next
  case False
  with assms have f: "\<lfloor>y\<rfloor> = - 1" by (simp add: floor_eq_iff)
  from assms False have "1 / 2 < y - of_int (- 1 :: int)" by simp
  with f show ?thesis by (simp add: round_even_def Let_def)
qed

text \<open>The binade of a positive number.\<close>

lemma floor_log2_bounds:
  assumes "0 < (x :: real)"
  shows "2 powi \<lfloor>log 2 x\<rfloor> \<le> x" and "x < 2 powi (\<lfloor>log 2 x\<rfloor> + 1)"
proof -
  have b: "2 powr real_of_int \<lfloor>log 2 x\<rfloor> \<le> x \<and> x < 2 powr real_of_int (\<lfloor>log 2 x\<rfloor> + 1)"
    using floor_log_eq_powr_iff[of x 2 "\<lfloor>log 2 x\<rfloor>"] assms by simp
  have p1: "(2 :: real) powr real_of_int \<lfloor>log 2 x\<rfloor> = 2 powi \<lfloor>log 2 x\<rfloor>"
    by (rule powr_real_of_int') simp_all
  have p2: "(2 :: real) powr real_of_int (\<lfloor>log 2 x\<rfloor> + 1) = 2 powi (\<lfloor>log 2 x\<rfloor> + 1)"
    by (rule powr_real_of_int') simp_all
  from b show "2 powi \<lfloor>log 2 x\<rfloor> \<le> x" unfolding p1 by (rule conjunct1)
  from b show "x < 2 powi (\<lfloor>log 2 x\<rfloor> + 1)" unfolding p2 by (rule conjunct2)
qed

lemma floor_log2_less:
  assumes "0 < (x :: real)" "x < 2 powi j"
  shows "\<lfloor>log 2 x\<rfloor> < j"
proof (rule ccontr)
  assume "\<not> \<lfloor>log 2 x\<rfloor> < j"
  then have "j \<le> \<lfloor>log 2 x\<rfloor>" by simp
  then have "(2 :: real) powi j \<le> 2 powi \<lfloor>log 2 x\<rfloor>" by (intro power_int_increasing) simp_all
  with floor_log2_bounds(1)[OF assms(1)] assms(2) show False by simp
qed

text \<open>A number of magnitude below half the smallest subnormal number rounds to zero.\<close>

lemma round64_underflow:
  assumes "\<bar>x\<bar> < 2 powi (- 1075)"
  shows "round64 x = Fin 0"
proof (cases "x = 0")
  case True
  then show ?thesis by (simp add: round64_def)
next
  case False
  then have pos: "0 < \<bar>x\<bar>" by simp
  have "(2 :: real) powi (- 1075) \<le> 2 powi (- 1022)" by (intro power_int_increasing) simp_all
  with assms have "\<bar>x\<bar> < 2 powi (- 1022)" by simp
  from floor_log2_less[OF pos this] have e: "max \<lfloor>log 2 \<bar>x\<bar>\<rfloor> (- 1022) = - 1022" by simp
  have u: "(2 :: real) powi (- 1075) = 2 powi (- 1074) * (1 / 2)"
    using power_int_add[of "2 :: real" "- 1074" "- 1"] by simp
  have "\<bar>x / 2 powi (- 1074)\<bar> = \<bar>x\<bar> / 2 powi (- 1074)" by simp
  also have "\<dots> < 1 / 2" using assms unfolding u by (simp add: field_simps)
  finally have "round_even (x / 2 powi (- 1074)) = 0" by (rule round_even_small)
  with False e show ?thesis by (simp add: round64_def Let_def)
qed

text \<open>
  Rounding keeps a number between two powers of two of the normal range between them: the
  powers of two are \<^verbatim>\<open>float64\<close> values themselves.
\<close>

lemma round64_bounds:
  assumes lo: "2 powi k \<le> x" and hi: "x \<le> 2 powi K" and k: "- 1022 \<le> k" and K: "K \<le> 1023"
  shows "\<exists>y. round64 x = Fin y \<and> 2 powi k \<le> y \<and> y \<le> 2 powi K"
proof -
  have "0 < (2 :: real) powi k" by simp
  with lo have pos: "0 < x" by linarith
  define L where "L = \<lfloor>log 2 x\<rfloor>"
  have Llo: "2 powi L \<le> x" and Lhi: "x < 2 powi (L + 1)"
    unfolding L_def using floor_log2_bounds[OF pos] by simp_all
  have kL: "k \<le> L"
  proof (rule ccontr)
    assume "\<not> k \<le> L"
    then have "L + 1 \<le> k" by simp
    then have "(2 :: real) powi (L + 1) \<le> 2 powi k" by (intro power_int_increasing) simp_all
    with lo Lhi show False by simp
  qed
  have LK: "L \<le> K"
  proof (rule ccontr)
    assume "\<not> L \<le> K"
    then have "K < L" by simp
    then have "(2 :: real) powi K < 2 powi L" by (intro power_int_strict_increasing) simp_all
    with hi Llo show False by simp
  qed
  define u :: real where "u = 2 powi (L - 52)"
  have upos: "0 < u" unfolding u_def by simp
  have uL: "2 powi L = u * 2 ^ 52"
    unfolding u_def using power_int_add[of "2 :: real" "L - 52" 52] by simp
  have uL1: "2 powi (L + 1) = u * 2 ^ 53"
    unfolding u_def using power_int_add[of "2 :: real" "L - 52" 53] by (simp add: add.commute)
  define t where "t = x / u"
  have xlo: "u * 2 ^ 52 \<le> x" using Llo unfolding uL .
  have xhi: "x < u * 2 ^ 53" using Lhi unfolding uL1 .
  have tlo: "2 ^ 52 \<le> t" unfolding t_def using xlo upos by (simp add: field_simps)
  have thi: "t < 2 ^ 53" unfolding t_def using xhi upos by (simp add: field_simps)
  define n where "n = round_even t"
  have flo: "(2 :: int) ^ 52 \<le> \<lfloor>t\<rfloor>" using tlo by (simp add: le_floor_iff)
  have fhi: "\<lfloor>t\<rfloor> < (2 :: int) ^ 53" using thi by (simp add: floor_less_iff)
  have b1: "\<lfloor>t\<rfloor> \<le> round_even t" using round_even_bounds[of t] by (rule conjunct1)
  have b2: "round_even t \<le> \<lfloor>t\<rfloor> + 1" using round_even_bounds[of t] by (rule conjunct2)
  have nlo: "(2 :: int) ^ 52 \<le> n" unfolding n_def using flo b1 by (rule order_trans)
  have "\<lfloor>t\<rfloor> + 1 \<le> (2 :: int) ^ 53" using fhi by (rule zless_imp_add1_zle)
  with b2 have nhi: "n \<le> (2 :: int) ^ 53" unfolding n_def by (rule order_trans)
  define y where "y = u * of_int n"
  have "u * 2 ^ 52 \<le> u * of_int n"
    using nlo upos by (intro mult_left_mono) (simp_all add: of_int_le_iff[of "2 ^ 52" n, simplified])
  then have ylo: "2 powi L \<le> y" unfolding y_def uL .
  have "u * of_int n \<le> u * 2 ^ 53"
    using nhi upos by (intro mult_left_mono) (simp_all add: of_int_le_iff[of n "2 ^ 53", simplified])
  then have yhi1: "y \<le> 2 powi (L + 1)" unfolding y_def uL1 .
  have yhi: "y \<le> 2 powi K"
  proof (cases "L < K")
    case True
    then have "(2 :: real) powi (L + 1) \<le> 2 powi K" by (intro power_int_increasing) simp_all
    with yhi1 show ?thesis by simp
  next
    case False
    with LK have LeqK: "L = K" by simp
    with hi Llo have "x = 2 powi L" by simp
    then have "t = 2 ^ 52" unfolding t_def uL using upos by simp
    then have "t = of_int (2 ^ 52)" by simp
    then have "n = 2 ^ 52" unfolding n_def by (simp only: round_even_of_int)
    then have "y = 2 powi L" unfolding y_def uL by simp
    with LeqK show ?thesis by simp
  qed
  have "0 < (2 :: real) powi L" by simp
  with ylo have ypos: "0 < y" by linarith
  have "(2 :: real) powi K \<le> 2 powi 1023" using K by (intro power_int_increasing) simp_all
  also have "\<dots> < 2 ^ 1024" by simp
  finally have nov: "\<not> 2 ^ 1024 \<le> \<bar>y\<bar>" using yhi ypos by simp
  have e: "max \<lfloor>log 2 \<bar>x\<bar>\<rfloor> (- 1022) = L" using pos kL k by (simp add: L_def)
  have "round64 x = Fin y"
    using pos nov unfolding round64_def Let_def e y_def n_def t_def u_def by simp
  moreover have "2 powi k \<le> y"
  proof -
    have "(2 :: real) powi k \<le> 2 powi L" using kL by (intro power_int_increasing) simp_all
    with ylo show ?thesis by simp
  qed
  ultimately show ?thesis using yhi by blast
qed

section \<open>The hard-sphere divisor\<close>

lemma powi_cube: "((2 :: real) powi k) ^ 3 = 2 powi (3 * k)"
proof -
  have "(3 :: int) * k = k + (k + k)" by simp
  then have "(2 :: real) powi (3 * k) = 2 powi k * (2 powi k * 2 powi k)"
    by (simp only: power_int_add[of "2 :: real", simplified])
  then show ?thesis by (simp only: power3_eq_cube mult.assoc)
qed

lemma fpow_Fin: "fpow (Fin x) n = Fin (x ^ n)"
  by (induction n) simp_all

text \<open>The factor \<^verbatim>\<open>2*pi/3\<close> is a \<^verbatim>\<open>float64\<close> value between \<open>1\<close> and \<open>4\<close>.\<close>

lemma two_pi_over_three_float64:
  "\<exists>c. f64div (f64mul (Fin 2) (Fin pi_float64)) (Fin 3) = Fin c \<and> 2 powi 0 \<le> c \<and> c \<le> 2 powi 2"
proof -
  have "2 powi 2 \<le> 2 * pi_float64" "2 * pi_float64 \<le> 2 powi 3"
    by (simp_all add: pi_float64_def)
  from round64_bounds[OF this] obtain c1 where
    c1: "round64 (2 * pi_float64) = Fin c1" "2 powi 2 \<le> c1" "c1 \<le> 2 powi 3"
    by auto
  from c1(2,3) have "2 powi 0 \<le> c1 / 3" "c1 / 3 \<le> 2 powi 2" by simp_all
  from round64_bounds[OF this] obtain c where
    c: "round64 (c1 / 3) = Fin c" "2 powi 0 \<le> c" "c \<le> 2 powi 2"
    by auto
  have "f64div (f64mul (Fin 2) (Fin pi_float64)) (Fin 3) = Fin c"
    by (simp add: f64div_def f64mul_def c1(1) c(1))
  with c(2,3) show ?thesis by blast
qed

lemma hs_float64_zero:
  assumes "py_min r = Inr (Fin m)" and "round64 (m ^ 3) = Fin 0"
  shows "VirialCoefficient_hs_float64 r = Inr (Fin 0)"
proof -
  from two_pi_over_three_float64 obtain c where
    c: "f64div (f64mul (Fin 2) (Fin pi_float64)) (Fin 3) = Fin c" by blast
  have p: "f64pow (Fin m) 3 = Fin 0" using assms(2) by (simp add: f64pow_def fpow_Fin)
  have "VirialCoefficient_hs_float64 r
          = Inr (f64mul (f64div (f64mul (Fin 2) (Fin pi_float64)) (Fin 3)) (f64pow (Fin m) 3))"
    by (simp add: VirialCoefficient_hs_float64_def assms(1))
  also have "\<dots> = Inr (f64mul (Fin c) (Fin 0))" by (simp only: c p)
  also have "\<dots> = Inr (Fin 0)" by (simp add: f64mul_def round64_def)
  finally show ?thesis .
qed

text \<open>The cube of a number below \<open>2\<^sup>-\<^sup>3\<^sup>5\<^sup>9\<close> is below \<open>2\<^sup>-\<^sup>1\<^sup>0\<^sup>7\<^sup>5\<close>: it underflows.\<close>

lemma hs_float64_underflow:
  assumes lo: "py_min r = Inr (Fin m)" and pos: "0 \<le> m" and small: "m < 2 powi (- 359)"
  shows "VirialCoefficient_hs_float64 r = Inr (Fin 0)"
proof -
  have "m ^ 3 < (2 powi (- 359)) ^ 3" using pos small by (intro power_strict_mono) simp_all
  also have "\<dots> = 2 powi (- 1077)" using powi_cube[of "- 359"] by (simp only: mult_minus_right arith_simps)
  also have "\<dots> \<le> 2 powi (- 1075)" by (intro power_int_increasing) simp_all
  finally have "\<bar>m ^ 3\<bar> < 2 powi (- 1075)" using pos by simp
  then have "round64 (m ^ 3) = Fin 0" by (rule round64_underflow)
  with lo show ?thesis by (rule hs_float64_zero)
qed

lemma hs_float64_positive:
  assumes lo: "py_min r = Inr (Fin m)" and ge: "2 powi (- 340) \<le> m" and le: "m \<le> 2 powi 340"
  shows "\<exists>hs. VirialCoefficient_hs_float64 r = Inr (Fin hs) \<and> 0 < hs"
proof -
  have pm: "0 < (2 :: real) powi (- 340)" by simp
  with ge have mpos: "0 \<le> m" by linarith
  have "(2 powi (- 340)) ^ 3 \<le> m ^ 3" using ge pm by (intro power_mono) simp_all
  moreover have "((2 :: real) powi (- 340)) ^ 3 = 2 powi (- 1020)"
    using powi_cube[of "- 340"] by (simp only: mult_minus_right arith_simps)
  ultimately have l3: "2 powi (- 1020) \<le> m ^ 3" by (simp only:)
  have "m ^ 3 \<le> (2 powi 340) ^ 3" using le mpos by (intro power_mono) simp_all
  moreover have "((2 :: real) powi 340) ^ 3 = 2 powi 1020"
    using powi_cube[of 340] by (simp only: arith_simps)
  ultimately have u3: "m ^ 3 \<le> 2 powi 1020" by (simp only:)
  from round64_bounds[OF l3 u3] obtain p where
    p: "round64 (m ^ 3) = Fin p" "2 powi (- 1020) \<le> p" "p \<le> 2 powi 1020"
    by auto
  from two_pi_over_three_float64 obtain c where
    c: "f64div (f64mul (Fin 2) (Fin pi_float64)) (Fin 3) = Fin c" "2 powi 0 \<le> c" "c \<le> 2 powi 2"
    by blast
  have p0: "0 < (2 :: real) powi (- 1020)" by simp
  with p(2) have ppos: "0 \<le> p" by linarith
  from c(2) have c1: "1 \<le> c" by simp
  have "2 powi (- 1020) \<le> 1 * p" using p(2) by simp
  also have "\<dots> \<le> c * p" using c1 ppos by (intro mult_right_mono) simp_all
  finally have lcp: "2 powi (- 1020) \<le> c * p" .
  have "c * p \<le> 2 powi 2 * 2 powi 1020" using c(3) p(3) ppos c1 by (intro mult_mono) simp_all
  also have "\<dots> = 2 powi 1022" using power_int_add[of "2 :: real" 2 1020] by simp
  finally have ucp: "c * p \<le> 2 powi 1022" .
  from round64_bounds[OF lcp ucp] obtain hs where
    hs: "round64 (c * p) = Fin hs" "2 powi (- 1020) \<le> hs"
    by auto
  have pw: "f64pow (Fin m) 3 = Fin p" using p(1) by (simp add: f64pow_def fpow_Fin)
  have "VirialCoefficient_hs_float64 r
          = Inr (f64mul (f64div (f64mul (Fin 2) (Fin pi_float64)) (Fin 3)) (f64pow (Fin m) 3))"
    by (simp add: VirialCoefficient_hs_float64_def lo)
  also have "\<dots> = Inr (f64mul (Fin c) (Fin p))" by (simp only: c(1) pw)
  also have "\<dots> = Inr (Fin hs)" by (simp add: f64mul_def hs(1))
  finally have "VirialCoefficient_hs_float64 r = Inr (Fin hs)" .
  moreover from hs(2) p0 have "0 < hs" by linarith
  ultimately show ?thesis by blast
qed

text \<open>
  Claim C10, as the program has it. For every curve whose smallest \<open>r\<close> lies between
  \<open>2\<^sup>-\<^sup>3\<^sup>4\<^sup>0\<close> (about \<open>4.5e-103\<close>) and \<open>2\<^sup>3\<^sup>4\<^sup>0\<close> (about \<open>2.2e102\<close>), the divisor
  \<^verbatim>\<open>hs\<close> \<open>= 2\<pi>/3 \<sqdot> min(r)\<^sup>3\<close> is in \<^verbatim>\<open>float64\<close> arithmetic a finite number greater than
  zero, so not zero. For every curve whose smallest \<open>r\<close> is zero, or positive and below
  \<open>2\<^sup>-\<^sup>3\<^sup>5\<^sup>9\<close> (about \<open>8.5e-109\<close>), the cube is zero and so is the divisor: the program
  divides by zero.
\<close>

theorem hard_sphere_divisor:
  assumes lo: "py_min r = Inr (Fin m)"
  shows "(2 powi (- 340) \<le> m \<and> m \<le> 2 powi 340 \<longrightarrow>
            (\<exists>hs. VirialCoefficient_hs_float64 r = Inr (Fin hs) \<and> 0 < hs))
       \<and> (0 \<le> m \<and> m < 2 powi (- 359) \<longrightarrow> VirialCoefficient_hs_float64 r = Inr (Fin 0))"
  using hs_float64_positive[OF lo] hs_float64_underflow[OF lo] by blast

theorem hard_sphere_divisor_witness:
  "py_min [Fin 1, Fin 2] = Inr (Fin 1)
   \<and> 2 powi (- 340) \<le> (1 :: real) \<and> (1 :: real) \<le> 2 powi 340
   \<and> (\<exists>hs. VirialCoefficient_hs_float64 [Fin 1, Fin 2] = Inr (Fin hs) \<and> 0 < hs)
   \<and> py_min [Fin 0, Fin 1] = Inr (Fin 0)
   \<and> VirialCoefficient_hs_float64 [Fin 0, Fin 1] = Inr (Fin 0)"
proof -
  have a: "py_min [Fin 1, Fin 2] = Inr (Fin 1)" by simp
  have b: "py_min [Fin 0, Fin 1] = Inr (Fin 0)" by simp
  have l: "2 powi (- 340) \<le> (1 :: real)" by (simp add: power_int_minus field_simps)
  have u: "(1 :: real) \<le> 2 powi 340" by simp
  have z: "(0 :: real) \<le> 0 \<and> (0 :: real) < 2 powi (- 359)" by simp
  from hard_sphere_divisor[OF a] l u
  have one: "\<exists>hs. VirialCoefficient_hs_float64 [Fin 1, Fin 2] = Inr (Fin hs) \<and> 0 < hs" by blast
  from hard_sphere_divisor[OF b] z
  have two: "VirialCoefficient_hs_float64 [Fin 0, Fin 1] = Inr (Fin 0)" by blast
  from a l u one b two show ?thesis by (intro conjI)
qed

text \<open>
  The claim as written has the divisor non-zero whenever the smallest \<open>r\<close> is greater than
  zero. On the curve \<open>r = [2\<^sup>-\<^sup>4\<^sup>0\<^sup>0, 1]\<close> the smallest \<open>r\<close> is greater than zero, its cube
  \<open>2\<^sup>-\<^sup>1\<^sup>2\<^sup>0\<^sup>0\<close> is far below the smallest \<^verbatim>\<open>float64\<close> number, and the divisor is zero.
\<close>

theorem hard_sphere_divisor_counterexample:
  "py_min [Fin (1 / 2 ^ 400), Fin 1] = Inr (Fin (1 / 2 ^ 400))
   \<and> flt (Fin 0) (Fin (1 / 2 ^ 400))
   \<and> VirialCoefficient_hs_float64 [Fin (1 / 2 ^ 400), Fin 1] = Inr (Fin 0)"
proof -
  have a: "py_min [Fin (1 / 2 ^ 400), Fin 1] = Inr (Fin (1 / 2 ^ 400))" by simp
  have p: "flt (Fin 0) (Fin (1 / 2 ^ 400))" by simp
  have nn: "(0 :: real) \<le> 1 / 2 ^ 400" by simp
  have "(1 :: real) / 2 ^ 400 = 2 powi (- 400)" by (simp add: power_int_minus field_simps)
  also have "\<dots> < 2 powi (- 359)" by (intro power_int_strict_increasing) simp_all
  finally have sm: "(1 :: real) / 2 ^ 400 < 2 powi (- 359)" .
  from a p hs_float64_underflow[OF a nn sm] show ?thesis by (intro conjI)
qed

end
